theory Spec2Isabelle
  imports Complex_Main
begin

section \<open>Two-body orbit propagator: a model of \<^verbatim>\<open>OrbitPropagator.py\<close>\<close>

text \<open>
  The class \<^verbatim>\<open>OrbitPropagator\<close> is modelled by a record of its attributes, its
  methods by functions that take the instance and return the updated instance, and every
  exception by a value of a sum type. Numbers are IEEE binary64 values: every arithmetic
  operation of the source computes the exact real result and rounds it to the nearest
  double, ties to even, with overflow to an infinity and gradual underflow.
\<close>

subsection \<open>Exceptions\<close>

text \<open>
  The exceptions the source can raise. \<open>ToolsError\<close> stands for any exception raised
  inside the module \<^verbatim>\<open>tools\<close>. The last two are the error kinds the specification
  names; no statement of the source raises them.
\<close>

datatype error =
    AttributeError
  | KeyError
  | ValueError
  | IndexError
  | ZeroDivisionError
  | OverflowError
  | MemoryError
  | ToolsError
  | SingularityError
  | InvalidConfigurationError

subsection \<open>Double-precision numbers\<close>

text \<open>
  A binary64 value: a finite number (\<open>Finite x\<close> with \<open>x\<close> the real number the double
  stands for), an infinity or a nan. The sign of a zero is not kept; no result of the
  source depends on it.
\<close>

datatype npfloat = Finite real | PosInf | NegInf | NaN

text \<open>Rounding a real to the nearest integer, a tie to the even neighbour.\<close>

definition round_ties_even :: "real \<Rightarrow> int" where
  "round_ties_even y =
     (let f = \<lfloor>y\<rfloor> in
      if y - of_int f < 1 / 2 then f
      else if 1 / 2 < y - of_int f then f + 1
      else if even f then f else f + 1)"

text \<open>The number of binary digits of a natural number (Python's \<^verbatim>\<open>int.bit_length\<close>).\<close>

fun bit_length :: "nat \<Rightarrow> nat" where
  "bit_length n = (if n = 0 then 0 else Suc (bit_length (n div 2)))"

declare bit_length.simps [simp del]

text \<open>
  Rounding a non-negative real \<open>a\<close> to \<open>p\<close> significant binary digits, on a grid whose
  finest spacing is \<open>2^-sc\<close>: \<open>a\<close> is counted in units of \<open>2^-sc\<close>, the digits beyond
  the first \<open>p\<close> are rounded away, and a number with fewer than \<open>p\<close> digits in these
  units (a subnormal) is rounded to a whole number of units.
\<close>

definition round_to_grid :: "nat \<Rightarrow> nat \<Rightarrow> real \<Rightarrow> real" where
  "round_to_grid p sc a =
     (let s = a * 2 ^ sc;
          u = 2 ^ (bit_length (nat \<lfloor>s\<rfloor>) - p)
      in of_int (round_ties_even (s / u)) * u / 2 ^ sc)"

text \<open>binary64: 53 significant digits, smallest subnormal \<open>2^-1074\<close>.\<close>

definition fl_mag :: "real \<Rightarrow> real" where
  "fl_mag a = round_to_grid 53 1074 a"

text \<open>
  The double a real result is rounded to: an infinity when the rounded magnitude reaches
  \<open>2^1024\<close>.
\<close>

definition fl :: "real \<Rightarrow> npfloat" where
  "fl x =
     (let m = fl_mag \<bar>x\<bar> in
      if 2 ^ 1024 \<le> m then (if 0 < x then PosInf else NegInf)
      else Finite (if x < 0 then - m else m))"

text \<open>A real number that is a double: rounding leaves it as it is.\<close>

definition is_double :: "real \<Rightarrow> bool" where
  "is_double x = (fl x = Finite x)"

text \<open>
  The arithmetic of NumPy on doubles. No operation raises: NumPy warns on a division by
  zero, an overflow or an invalid operation and returns the IEEE result.
\<close>

fun is_negative :: "npfloat \<Rightarrow> bool" where
  "is_negative (Finite a) = (a < 0)"
| "is_negative NegInf = True"
| "is_negative PosInf = False"
| "is_negative NaN = False"

definition signed_inf :: "bool \<Rightarrow> npfloat" where
  "signed_inf negative = (if negative then NegInf else PosInf)"

fun np_negative :: "npfloat \<Rightarrow> npfloat" where
  "np_negative (Finite a) = Finite (- a)"
| "np_negative PosInf = NegInf"
| "np_negative NegInf = PosInf"
| "np_negative NaN = NaN"

fun np_add :: "npfloat \<Rightarrow> npfloat \<Rightarrow> npfloat" where
  "np_add (Finite a) (Finite b) = fl (a + b)"
| "np_add NaN y = NaN"
| "np_add x NaN = NaN"
| "np_add PosInf NegInf = NaN"
| "np_add NegInf PosInf = NaN"
| "np_add PosInf y = PosInf"
| "np_add NegInf y = NegInf"
| "np_add (Finite a) y = y"

fun np_multiply :: "npfloat \<Rightarrow> npfloat \<Rightarrow> npfloat" where
  "np_multiply (Finite a) (Finite b) = fl (a * b)"
| "np_multiply NaN y = NaN"
| "np_multiply x NaN = NaN"
| "np_multiply x y =
     (if x = Finite 0 \<or> y = Finite 0 then NaN
      else signed_inf (is_negative x \<noteq> is_negative y))"

fun np_true_divide :: "npfloat \<Rightarrow> npfloat \<Rightarrow> npfloat" where
  "np_true_divide (Finite a) (Finite b) =
     (if b \<noteq> 0 then fl (a / b)
      else if a = 0 then NaN
      else signed_inf (a < 0))"
| "np_true_divide NaN y = NaN"
| "np_true_divide x NaN = NaN"
| "np_true_divide (Finite a) y = Finite 0"
| "np_true_divide x (Finite b) = signed_inf (is_negative x \<noteq> (b < 0))"
| "np_true_divide x y = NaN"

fun np_sqrt :: "npfloat \<Rightarrow> npfloat" where
  "np_sqrt (Finite a) = (if a < 0 then NaN else fl (sqrt a))"
| "np_sqrt PosInf = PosInf"
| "np_sqrt NegInf = NaN"
| "np_sqrt NaN = NaN"

text \<open>\<^verbatim>\<open>x ** n\<close> for a double \<open>x\<close> and a non-negative integer \<open>n\<close>.\<close>

fun np_power :: "npfloat \<Rightarrow> nat \<Rightarrow> npfloat" where
  "np_power x 0 = Finite 1"
| "np_power (Finite a) n = fl (a ^ n)"
| "np_power PosInf n = PosInf"
| "np_power NegInf n = (if even n then PosInf else NegInf)"
| "np_power NaN n = NaN"

type_synonym vec = "npfloat list"

type_synonym central_body = "string \<rightharpoonup> real"

text \<open>
  \<^verbatim>\<open>x.dot(y)\<close> of two vectors, the products summed in index order, and
  \<^verbatim>\<open>np.linalg.norm\<close> of a vector, which NumPy computes as \<^verbatim>\<open>sqrt(x.dot(x))\<close>.
\<close>

definition np_dot :: "vec \<Rightarrow> vec \<Rightarrow> npfloat" where
  "np_dot x y = foldl np_add (Finite 0) (map2 np_multiply x y)"

definition linalg_norm :: "vec \<Rightarrow> npfloat" where
  "linalg_norm r = np_sqrt (np_dot r r)"

text \<open>
  A number the constructor is given for \<open>tspan\<close> or \<open>dt\<close>: a Python number or a NumPy
  scalar. The two differ in one point: a Python number divided by a Python zero raises
  \<^verbatim>\<open>ZeroDivisionError\<close>, while NumPy returns an infinity or a nan.
\<close>

datatype pynum = PyFloat npfloat | NpFloat64 npfloat

fun num_val :: "pynum \<Rightarrow> npfloat" where
  "num_val (PyFloat x) = x"
| "num_val (NpFloat64 x) = x"

fun is_numpy :: "pynum \<Rightarrow> bool" where
  "is_numpy (PyFloat x) = False"
| "is_numpy (NpFloat64 x) = True"

fun py_truediv :: "pynum \<Rightarrow> pynum \<Rightarrow> error + npfloat" where
  "py_truediv (PyFloat a) (PyFloat b) =
     (if b = Finite 0 then Inl ZeroDivisionError else Inr (np_true_divide a b))"
| "py_truediv x y = Inr (np_true_divide (num_val x) (num_val y))"

text \<open>
  \<^verbatim>\<open>int(np.ceil(q))\<close>: the ceiling of a double is a double, so \<^verbatim>\<open>np.ceil\<close> does not
  round; \<^verbatim>\<open>int\<close> raises \<^verbatim>\<open>OverflowError\<close> on an infinity and \<^verbatim>\<open>ValueError\<close> on a
  nan.
\<close>

fun int_ceil :: "npfloat \<Rightarrow> error + int" where
  "int_ceil (Finite x) = Inr \<lceil>x\<rceil>"
| "int_ceil NaN = Inl ValueError"
| "int_ceil q = Inl OverflowError"

subsection \<open>NumPy arrays as lists\<close>

text \<open>
  An integer index into an axis of length \<open>n\<close>: negative indices count from the end,
  anything outside \<open>-n ..< n\<close> raises \<^verbatim>\<open>IndexError\<close>.
\<close>

definition np_index :: "nat \<Rightarrow> int \<Rightarrow> error + nat" where
  "np_index n i =
     (if 0 \<le> i \<and> i < int n then Inr (nat i)
      else if - int n \<le> i \<and> i < 0 then Inr (nat (int n + i))
      else Inl IndexError)"

definition set_item :: "'a list \<Rightarrow> int \<Rightarrow> 'a \<Rightarrow> error + 'a list" where
  "set_item a i v =
     (case np_index (length a) i of
        Inl e \<Rightarrow> Inl e
      | Inr j \<Rightarrow> Inr (a[j := v]))"

definition get_item :: "'a list \<Rightarrow> int \<Rightarrow> error + 'a" where
  "get_item a i =
     (case np_index (length a) i of
        Inl e \<Rightarrow> Inl e
      | Inr j \<Rightarrow> Inr (a ! j))"

text \<open>
  Assigning a one-dimensional value to a row of width \<open>w\<close>: NumPy broadcasts a value of
  length 1, takes a value of length \<open>w\<close> as it is and raises \<^verbatim>\<open>ValueError\<close>
  otherwise.
\<close>

definition broadcast_row :: "nat \<Rightarrow> vec \<Rightarrow> error + vec" where
  "broadcast_row w v =
     (if length v = w then Inr v
      else (case v of [c] \<Rightarrow> Inr (replicate w c) | _ \<Rightarrow> Inl ValueError))"

definition set_row :: "vec list \<Rightarrow> int \<Rightarrow> vec \<Rightarrow> error + vec list" where
  "set_row a i v =
     (case np_index (length a) i of
        Inl e \<Rightarrow> Inl e
      | Inr j \<Rightarrow>
          (case broadcast_row (length (a ! j)) v of
             Inl e \<Rightarrow> Inl e
           | Inr row \<Rightarrow> Inr (a[j := row])))"

subsection \<open>The equations of motion\<close>

text \<open>
  \<^verbatim>\<open>diffy_q(self, t, y)\<close>: unpacking \<open>y\<close> into six names raises
  \<^verbatim>\<open>ValueError\<close> unless it has six components, \<^verbatim>\<open>self.cb['mu']\<close> raises
  \<^verbatim>\<open>KeyError\<close> when the key is missing, and the acceleration is
  \<^verbatim>\<open>-r*self.cb['mu']/norm_r**3\<close>, component by component. There is no test of
  \<open>norm_r\<close>.
\<close>

definition diffy_q :: "central_body \<Rightarrow> npfloat \<Rightarrow> vec \<Rightarrow> error + vec" where
  "diffy_q body t y =
     (case y of
        [rx, ry, rz, vx, vy, vz] \<Rightarrow>
          (let r = [rx, ry, rz];
               norm_r = linalg_norm r
           in (case body ''mu'' of
                 None \<Rightarrow> Inl KeyError
               | Some mu \<Rightarrow>
                   Inr ([vx, vy, vz]
                        @ map (\<lambda>c. np_true_divide (np_multiply (np_negative c) (Finite mu))
                                       (np_power norm_r 3)) r)))
      | _ \<Rightarrow> Inl ValueError)"

subsection \<open>The integrator\<close>

text \<open>
  What one call of the \<^verbatim>\<open>lsoda\<close> integrator of \<^verbatim>\<open>scipy.integrate.ode\<close> can
  do when asked to advance to a target time: reach it and return the state there; stop
  short at some time with the state reached so far, reporting failure (SciPy warns and
  clears its success flag, it does not raise); or let an exception of the right-hand
  side through.
\<close>

datatype outcome = Reached vec | Stopped npfloat vec | Raised error

text \<open>
  The attributes of the \<^verbatim>\<open>ode\<close> object the propagator reads: its time \<^verbatim>\<open>t\<close>,
  its state \<^verbatim>\<open>y\<close> and the integrator's success flag.
\<close>

record solver =
  sol_t :: npfloat
  sol_y :: vec
  sol_success :: bool

text \<open>
  The collaborators outside the file: \<^verbatim>\<open>tools.coes2rv\<close> (returns a position and a
  velocity of three components each), \<^verbatim>\<open>tools.true_anomaly_r\<close>, the integrator
  (given the right-hand side, the current state, the current time and the target time)
  and the machine's memory: \<open>zeros_failure rows cols\<close> is the exception
  \<^verbatim>\<open>np.zeros\<close> raises for a shape too large to allocate, \<open>None\<close> when it can be
  allocated. For the two functions of \<^verbatim>\<open>tools\<close>, \<open>None\<close> is an exception raised
  inside them.
\<close>

record tools =
  coes2rv :: "vec \<Rightarrow> bool \<Rightarrow> real \<Rightarrow>
              ((npfloat \<times> npfloat \<times> npfloat) \<times> (npfloat \<times> npfloat \<times> npfloat)) option"
  true_anomaly_r :: "vec \<Rightarrow> npfloat option"
  lsoda :: "(npfloat \<Rightarrow> vec \<Rightarrow> error + vec) \<Rightarrow> vec \<Rightarrow> npfloat \<Rightarrow> npfloat \<Rightarrow> outcome"
  zeros_failure :: "nat \<Rightarrow> nat \<Rightarrow> error option"

text \<open>
  \<^verbatim>\<open>np.zeros((n, cols))\<close>, one list entry \<open>z\<close> per row: a negative dimension raises
  \<^verbatim>\<open>ValueError\<close>, an empty array is always there, and a non-empty one is there
  when the machine can allocate it.
\<close>

definition np_zeros :: "tools \<Rightarrow> int \<Rightarrow> nat \<Rightarrow> 'a \<Rightarrow> error + 'a list" where
  "np_zeros T n cols z =
     (if n < 0 then Inl ValueError
      else (case (if n = 0 then None else zeros_failure T (nat n) cols) of
              Some e \<Rightarrow> Inl e
            | None \<Rightarrow> Inr (replicate (nat n) z)))"

text \<open>
  \<^verbatim>\<open>solver.set_initial_value(y0, 0)\<close> after \<^verbatim>\<open>ode(self.diffy_q)\<close> and
  \<^verbatim>\<open>set_integrator('lsoda')\<close>: a fresh solver at the given time with its flag set.
\<close>

definition set_initial_value :: "vec \<Rightarrow> npfloat \<Rightarrow> solver" where
  "set_initial_value y t = \<lparr>sol_t = t, sol_y = y, sol_success = True\<rparr>"

text \<open>
  \<^verbatim>\<open>solver.integrate(t1)\<close>: runs the integrator from the solver's own time and state
  and stores where it ended. A failure clears the flag, and nothing sets it again.
\<close>

definition integrate :: "tools \<Rightarrow> central_body \<Rightarrow> solver \<Rightarrow> npfloat \<Rightarrow> error + solver" where
  "integrate T body s t1 =
     (case lsoda T (diffy_q body) (sol_y s) (sol_t s) t1 of
        Reached y1 \<Rightarrow> Inr (s\<lparr>sol_t := t1, sol_y := y1\<rparr>)
      | Stopped t y1 \<Rightarrow> Inr (s\<lparr>sol_t := t, sol_y := y1, sol_success := False\<rparr>)
      | Raised e \<Rightarrow> Inl e)"

text \<open>\<^verbatim>\<open>solver.successful()\<close>, the method: whether the flag is still set.\<close>

definition successful :: "solver \<Rightarrow> bool" where
  "successful s = sol_success s"

text \<open>
  The values a Python condition can see here: a boolean, or a method bound to its object.
  A bound method that is not called is an object, and an object is true.
\<close>

datatype pyvalue = PyBool bool | PyBoundMethod "solver \<Rightarrow> bool" solver

fun truthy :: "pyvalue \<Rightarrow> bool" where
  "truthy (PyBool b) = b"
| "truthy (PyBoundMethod m s) = True"

subsection \<open>The propagator\<close>

text \<open>
  The attributes of an instance after \<^verbatim>\<open>__init__\<close> has returned. \<open>ts\<close> and
  \<open>ta\<close> are the \<open>(n_steps, 1)\<close> arrays, one number per row; \<open>ys\<close> is the
  \<open>(n_steps, 6)\<close> array, one row per sample. \<open>rs\<close> and \<open>vs\<close> exist only once
  \<^verbatim>\<open>propagate_orbit\<close> has run.
\<close>

record propagator =
  r0 :: vec
  v0 :: vec
  y0 :: vec
  tspan :: pynum
  dt :: pynum
  cb :: central_body
  n_steps :: int
  ys :: "vec list"
  ts :: "npfloat list"
  step :: int
  ta :: "npfloat list"
  solver :: solver
  rs :: "vec list option"
  vs :: "vec list option"

text \<open>
  The loop condition \<^verbatim>\<open>self.solver.successful and self.step < self.n_steps\<close>: the
  first operand is the attribute, the bound method itself, not a call of it.
\<close>

definition loop_cond :: "propagator \<Rightarrow> bool" where
  "loop_cond p = (truthy (PyBoundMethod successful (solver p)) \<and> step p < n_steps p)"

text \<open>
  One pass through the body of the loop. The target of the advance is the double sum
  \<^verbatim>\<open>self.solver.t + self.dt\<close>. An exception leaves the loop (and the method); the
  model then keeps the exception only.
\<close>

definition loop_body :: "tools \<Rightarrow> propagator \<Rightarrow> error + propagator" where
  "loop_body T p =
     (case integrate T (cb p) (solver p) (np_add (sol_t (solver p)) (num_val (dt p))) of
        Inl e \<Rightarrow> Inl e
      | Inr s \<Rightarrow>
     (case set_item (ts p) (step p) (sol_t s) of
        Inl e \<Rightarrow> Inl e
      | Inr ts1 \<Rightarrow>
     (case set_row (ys p) (step p) (sol_y s) of
        Inl e \<Rightarrow> Inl e
      | Inr ys1 \<Rightarrow>
     (case get_item ys1 (step p) of
        Inl e \<Rightarrow> Inl e
      | Inr row \<Rightarrow>
     (case true_anomaly_r T row of
        None \<Rightarrow> Inl ToolsError
      | Some a \<Rightarrow>
     (case set_item (ta p) (step p) a of
        Inl e \<Rightarrow> Inl e
      | Inr ta1 \<Rightarrow>
          Inr (p\<lparr>solver := s, ts := ts1, ys := ys1, ta := ta1, step := step p + 1\<rparr>)))))))"

function propagate_loop :: "tools \<Rightarrow> propagator \<Rightarrow> error + propagator" where
  "propagate_loop T p =
     (if loop_cond p then
        (case loop_body T p of
           Inl e \<Rightarrow> Inl e
         | Inr p' \<Rightarrow> propagate_loop T p')
      else Inr p)"
  by pat_completeness auto
termination
  by (relation "measure (\<lambda>(T, p). nat (n_steps p - step p))")
     (auto simp: loop_cond_def loop_body_def split: sum.splits option.splits)

declare propagate_loop.simps [simp del]

text \<open>
  \<^verbatim>\<open>propagate_orbit\<close>: the loop, then the two column slices of \<open>ys\<close>.
\<close>

definition propagate_orbit :: "tools \<Rightarrow> propagator \<Rightarrow> error + propagator" where
  "propagate_orbit T p =
     (case propagate_loop T p of
        Inl e \<Rightarrow> Inl e
      | Inr p' \<Rightarrow> Inr (p'\<lparr>rs := Some (map (take 3) (ys p')), vs := Some (map (drop 3) (ys p'))\<rparr>))"

text \<open>
  Lines 27 to 31 of \<^verbatim>\<open>__init__\<close>: the attributes \<open>r0\<close> and \<open>v0\<close> after the
  branch, \<open>None\<close> for an attribute no statement has assigned. With \<open>coes\<close> false the
  source assigns \<open>r0\<close> twice and \<open>v0\<close> never.
\<close>

definition resolve_state ::
  "tools \<Rightarrow> vec \<Rightarrow> bool \<Rightarrow> bool \<Rightarrow> central_body \<Rightarrow> error + (vec option \<times> vec option)" where
  "resolve_state T state0 coes deg body =
     (if coes then
        (case body ''mu'' of
           None \<Rightarrow> Inl KeyError
         | Some mu \<Rightarrow>
             (case coes2rv T state0 deg mu of
                None \<Rightarrow> Inl ToolsError
              | Some ((rx, ry, rz), (vx, vy, vz)) \<Rightarrow> Inr (Some [rx, ry, rz], Some [vx, vy, vz])))
      else
        (let v0_attr = None;
             r0_attr = Some (take 3 state0);
             r0_attr = Some (drop 3 state0)
         in Inr (r0_attr, v0_attr)))"

text \<open>Reading an attribute: \<^verbatim>\<open>AttributeError\<close> when it was never assigned.\<close>

definition getattr :: "'a option \<Rightarrow> error + 'a" where
  "getattr a = (case a of None \<Rightarrow> Inl AttributeError | Some v \<Rightarrow> Inr v)"

text \<open>
  \<^verbatim>\<open>__init__\<close>. Nothing looks at the sign of \<open>tspan\<close> or \<open>dt\<close>: the step count
  is \<^verbatim>\<open>int(np.ceil(self.tspan/self.dt))\<close> of the double quotient, whatever it is.
\<close>

definition init ::
  "tools \<Rightarrow> vec \<Rightarrow> pynum \<Rightarrow> pynum \<Rightarrow> bool \<Rightarrow> bool \<Rightarrow> bool \<Rightarrow> central_body \<Rightarrow> error + propagator" where
  "init T state0 tspan_in dt_in coes deg auto_orbit_prop body =
     (case resolve_state T state0 coes deg body of
        Inl e \<Rightarrow> Inl e
      | Inr (r0a, v0a) \<Rightarrow>
     (case getattr r0a of
        Inl e \<Rightarrow> Inl e
      | Inr r \<Rightarrow>
     (case getattr v0a of
        Inl e \<Rightarrow> Inl e
      | Inr v \<Rightarrow>
     (let y = r @ v in
     (case py_truediv tspan_in dt_in of
        Inl e \<Rightarrow> Inl e
      | Inr q \<Rightarrow>
     (case int_ceil q of
        Inl e \<Rightarrow> Inl e
      | Inr n \<Rightarrow>
     (case np_zeros T n 6 (replicate 6 (Finite 0)) of
        Inl e \<Rightarrow> Inl e
      | Inr ys0 \<Rightarrow>
     (case np_zeros T n 1 (Finite 0) of
        Inl e \<Rightarrow> Inl e
      | Inr ts0 \<Rightarrow>
     (case set_item ts0 0 (Finite 0) of
        Inl e \<Rightarrow> Inl e
      | Inr ts1 \<Rightarrow>
     (case set_row ys0 0 y of
        Inl e \<Rightarrow> Inl e
      | Inr ys1 \<Rightarrow>
     (case np_zeros T n 1 (Finite 0) of
        Inl e \<Rightarrow> Inl e
      | Inr ta0 \<Rightarrow>
     (case true_anomaly_r T y of
        None \<Rightarrow> Inl ToolsError
      | Some a \<Rightarrow>
     (case set_item ta0 0 a of
        Inl e \<Rightarrow> Inl e
      | Inr ta1 \<Rightarrow>
     (let p = \<lparr>r0 = r, v0 = v, y0 = y, tspan = tspan_in, dt = dt_in, cb = body,
                n_steps = n, ys = ys1, ts = ts1, step = 1, ta = ta1,
                solver = set_initial_value y (Finite 0), rs = None, vs = None\<rparr>
      in if auto_orbit_prop then propagate_orbit T p else Inr p))))))))))))))"

subsection \<open>Derived notions used to state the properties\<close>

text \<open>
  What holds of an instance between the statements of the stepping loop: the next index
  to write is at least 1 and at most \<open>n_steps\<close>, and the three arrays have
  \<open>n_steps\<close> rows.
\<close>

definition constructed :: "propagator \<Rightarrow> bool" where
  "constructed p =
     (1 \<le> step p \<and> step p \<le> n_steps p
      \<and> int (length (ts p)) = n_steps p
      \<and> int (length (ys p)) = n_steps p
      \<and> int (length (ta p)) = n_steps p)"

text \<open>
  Sample 0 is the initial condition: \<^verbatim>\<open>ts[0] == 0\<close>, \<^verbatim>\<open>ys[0] == y0\<close> and
  \<^verbatim>\<open>ta[0] == true_anomaly_r(y0)\<close>, each read as the program would read it.
\<close>

definition sample0_is_initial :: "tools \<Rightarrow> propagator \<Rightarrow> bool" where
  "sample0_is_initial T p =
     (get_item (ts p) 0 = Inr (Finite 0)
      \<and> get_item (ys p) 0 = Inr (y0 p)
      \<and> (case true_anomaly_r T (y0 p) of
            None \<Rightarrow> False
          | Some a \<Rightarrow> get_item (ta p) 0 = Inr a))"

text \<open>
  The reference for continuity: \<open>k\<close> calls of \<^verbatim>\<open>integrate\<close> in a row on one solver,
  each asked to advance by \<open>h\<close> from the time at which the call before it ended, with no
  statement in between that touches the solver.
\<close>

fun advance_n :: "tools \<Rightarrow> central_body \<Rightarrow> npfloat \<Rightarrow> nat \<Rightarrow> solver \<Rightarrow> error + solver" where
  "advance_n T body h 0 s = Inr s"
| "advance_n T body h (Suc k) s =
     (case integrate T body s (np_add (sol_t s) h) of
        Inl e \<Rightarrow> Inl e
      | Inr s' \<Rightarrow> advance_n T body h k s')"

text \<open>
  The result of a constructor call in which the first statement to raise after lines 27
  to 33 raises \<open>err\<close>: an exception of those lines comes first.
\<close>

definition raises_after_state ::
  "tools \<Rightarrow> vec \<Rightarrow> bool \<Rightarrow> bool \<Rightarrow> central_body \<Rightarrow> error \<Rightarrow> error + propagator" where
  "raises_after_state T state0 coes deg body err =
     (case resolve_state T state0 coes deg body of
        Inl e \<Rightarrow> Inl e
      | Inr (r0a, v0a) \<Rightarrow>
     (case getattr r0a of
        Inl e \<Rightarrow> Inl e
      | Inr r \<Rightarrow>
     (case getattr v0a of
        Inl e \<Rightarrow> Inl e
      | Inr v \<Rightarrow> Inl err)))"

text \<open>What a caller can read off the result of a call: the three arrays, the step
  counter and the answer of \<^verbatim>\<open>solver.successful()\<close>.\<close>

definition observe ::
  "error + propagator \<Rightarrow> error + (npfloat list \<times> vec list \<times> npfloat list \<times> int \<times> bool)" where
  "observe res =
     (case res of
        Inl e \<Rightarrow> Inl e
      | Inr p \<Rightarrow> Inr (ts p, ys p, ta p, step p, successful (solver p)))"

text \<open>The Euclidean norm of a vector of reals, with no rounding.\<close>

definition euclidean_norm :: "real list \<Rightarrow> real" where
  "euclidean_norm r = sqrt (sum_list (map (\<lambda>c. c ^ 2) r))"

subsection \<open>A concrete run\<close>

text \<open>
  Stand-ins for the collaborators, for evaluating the model on concrete inputs: a central
  body with Earth's gravitational parameter, a converter that returns a fixed state, a
  true-anomaly function (it returns the first component), an integrator that reaches
  every target, one whose first call (from time 0) stops half way and reports failure
  while its later calls succeed, and a machine that can allocate every array.
\<close>

definition example_body :: central_body where
  "example_body = [''mu'' \<mapsto> 398600]"

definition example_coes2rv ::
  "vec \<Rightarrow> bool \<Rightarrow> real \<Rightarrow>
   ((npfloat \<times> npfloat \<times> npfloat) \<times> (npfloat \<times> npfloat \<times> npfloat)) option" where
  "example_coes2rv c deg mu =
     Some ((Finite 7000, Finite 0, Finite 0), (Finite 0, Finite (15 / 2), Finite 0))"

definition example_true_anomaly :: "vec \<Rightarrow> npfloat option" where
  "example_true_anomaly y = (case y of [] \<Rightarrow> None | c # cs \<Rightarrow> Some c)"

fun shifted :: "npfloat \<Rightarrow> npfloat" where
  "shifted (Finite x) = Finite (x + 1)"
| "shifted c = c"

fun halved :: "npfloat \<Rightarrow> npfloat" where
  "halved (Finite x) = Finite (x / 2)"
| "halved c = c"

definition reach_all ::
  "(npfloat \<Rightarrow> vec \<Rightarrow> error + vec) \<Rightarrow> vec \<Rightarrow> npfloat \<Rightarrow> npfloat \<Rightarrow> outcome" where
  "reach_all f y t t1 = Reached (map shifted y)"

definition stop_first_call ::
  "(npfloat \<Rightarrow> vec \<Rightarrow> error + vec) \<Rightarrow> vec \<Rightarrow> npfloat \<Rightarrow> npfloat \<Rightarrow> outcome" where
  "stop_first_call f y t t1 =
     (if t = Finite 0 then Stopped (halved t1) (map shifted y)
      else Reached (map shifted y))"

definition example_tools ::
  "((npfloat \<Rightarrow> vec \<Rightarrow> error + vec) \<Rightarrow> vec \<Rightarrow> npfloat \<Rightarrow> npfloat \<Rightarrow> outcome) \<Rightarrow> tools" where
  "example_tools integrator =
     \<lparr>coes2rv = example_coes2rv, true_anomaly_r = example_true_anomaly, lsoda = integrator,
      zeros_failure = (\<lambda>rows cols. None)\<rparr>"

text \<open>
  The instance built from these with \<open>tspan = 30\<close>, \<open>dt = 10\<close> and no automatic
  propagation, and the instance after \<^verbatim>\<open>propagate_orbit\<close> with the integrator that
  reaches every target.
\<close>

definition example_y0 :: vec where
  "example_y0 = [Finite 7000, Finite 0, Finite 0, Finite 0, Finite (15 / 2), Finite 0]"

definition example_initial :: propagator where
  "example_initial =
     \<lparr>r0 = [Finite 7000, Finite 0, Finite 0], v0 = [Finite 0, Finite (15 / 2), Finite 0],
      y0 = example_y0,
      tspan = PyFloat (Finite 30), dt = PyFloat (Finite 10), cb = example_body, n_steps = 3,
      ys = [example_y0,
            [Finite 0, Finite 0, Finite 0, Finite 0, Finite 0, Finite 0],
            [Finite 0, Finite 0, Finite 0, Finite 0, Finite 0, Finite 0]],
      ts = [Finite 0, Finite 0, Finite 0], step = 1,
      ta = [Finite 7000, Finite 0, Finite 0],
      solver = \<lparr>sol_t = Finite 0, sol_y = example_y0, sol_success = True\<rparr>,
      rs = None, vs = None\<rparr>"

definition example_final :: propagator where
  "example_final =
     \<lparr>r0 = [Finite 7000, Finite 0, Finite 0], v0 = [Finite 0, Finite (15 / 2), Finite 0],
      y0 = example_y0,
      tspan = PyFloat (Finite 30), dt = PyFloat (Finite 10), cb = example_body, n_steps = 3,
      ys = [example_y0,
            [Finite 7001, Finite 1, Finite 1, Finite 1, Finite (17 / 2), Finite 1],
            [Finite 7002, Finite 2, Finite 2, Finite 2, Finite (19 / 2), Finite 2]],
      ts = [Finite 0, Finite 10, Finite 20], step = 3,
      ta = [Finite 7000, Finite 7001, Finite 7002],
      solver = \<lparr>sol_t = Finite 20,
                sol_y = [Finite 7002, Finite 2, Finite 2, Finite 2, Finite (19 / 2), Finite 2],
                sol_success = True\<rparr>,
      rs = Some [[Finite 7000, Finite 0, Finite 0], [Finite 7001, Finite 1, Finite 1],
                 [Finite 7002, Finite 2, Finite 2]],
      vs = Some [[Finite 0, Finite (15 / 2), Finite 0], [Finite 1, Finite (17 / 2), Finite 1],
                 [Finite 2, Finite (19 / 2), Finite 2]]\<rparr>"

section \<open>Auxiliary facts\<close>

subsection \<open>Rounding\<close>

lemma round_ties_even_int [simp]: "round_ties_even (of_int k) = k"
  by (simp add: round_ties_even_def)

lemma round_ties_even_bounds:
  "\<bar>of_int (round_ties_even y) - y\<bar> \<le> 1 / 2"
  unfolding round_ties_even_def Let_def by (auto simp: abs_le_iff)

lemma round_ties_even_mono_int: "of_int k \<le> y \<Longrightarrow> k \<le> round_ties_even y"
proof -
  assume "of_int k \<le> y"
  hence "k \<le> \<lfloor>y\<rfloor>" by (simp add: le_floor_iff)
  thus ?thesis unfolding round_ties_even_def Let_def by auto
qed

lemma round_ties_even_nonneg: "0 \<le> y \<Longrightarrow> 0 \<le> round_ties_even y"
  using round_ties_even_mono_int[of 0 y] by simp

lemma bit_length_bounds: "0 < n \<Longrightarrow> 2 ^ (bit_length n - 1) \<le> n \<and> n < 2 ^ bit_length n"
proof (induction n rule: bit_length.induct)
  case (1 n)
  show ?case
  proof (cases "n div 2 = 0")
    case True
    with "1.prems" have "n = 1" by (simp add: div_eq_0_iff) 
    thus ?thesis by (simp add: bit_length.simps)
  next
    case False
    with "1.IH" "1.prems" have ih: "2 ^ (bit_length (n div 2) - 1) \<le> n div 2"
        "n div 2 < 2 ^ bit_length (n div 2)" by simp_all
    from False have pos: "0 < bit_length (n div 2)" by (simp add: bit_length.simps)
    have bl: "bit_length n = Suc (bit_length (n div 2))"
      using "1.prems" by (subst bit_length.simps) simp
    from ih(1) have "2 * 2 ^ (bit_length (n div 2) - 1) \<le> n" by linarith
    moreover from pos have "2 * 2 ^ (bit_length (n div 2) - 1) = (2::nat) ^ bit_length (n div 2)"
      by (cases "bit_length (n div 2)") simp_all
    moreover from ih(2) have "n < 2 * 2 ^ bit_length (n div 2)" by linarith
    ultimately show ?thesis by (simp add: bl)
  qed
qed

lemma bit_length_eq: "2 ^ k \<le> n \<Longrightarrow> n < 2 ^ Suc k \<Longrightarrow> bit_length n = Suc k"
proof -
  assume a: "2 ^ k \<le> n" "n < 2 ^ Suc k"
  have "(0::nat) < 2 ^ k" by simp
  with a(1) have pos: "0 < n" by linarith
  from bit_length_bounds[OF pos] have b: "2 ^ (bit_length n - 1) \<le> n" "n < 2 ^ bit_length n" by simp_all
  from a(1) b(2) have "(2::nat) ^ k < 2 ^ bit_length n" by linarith
  hence "k < bit_length n" by (rule power_less_imp_less_exp[rotated]) simp
  moreover from b(1) a(2) have "(2::nat) ^ (bit_length n - 1) < 2 ^ Suc k" by linarith
  hence "bit_length n - 1 < Suc k" by (rule power_less_imp_less_exp[rotated]) simp
  ultimately show ?thesis by linarith
qed

lemma bit_length_le: "n < 2 ^ k \<Longrightarrow> bit_length n \<le> k"
proof (cases "n = 0")
  case True
  then show ?thesis by (simp add: bit_length.simps)
next
  case False
  assume "n < 2 ^ k"
  moreover from False bit_length_bounds[of n] have "2 ^ (bit_length n - 1) \<le> n" by simp
  ultimately have "(2::nat) ^ (bit_length n - 1) < 2 ^ k" by linarith
  hence "bit_length n - 1 < k" by (rule power_less_imp_less_exp[rotated]) simp
  thus ?thesis by linarith
qed

lemma round_to_grid_nonneg: "0 \<le> a \<Longrightarrow> 0 \<le> round_to_grid p sc a"
  unfolding round_to_grid_def Let_def
  by (intro divide_nonneg_nonneg mult_nonneg_nonneg) (simp_all add: round_ties_even_nonneg)

lemma round_to_grid_error:
  assumes "2 ^ (p - 1) \<le> a * 2 ^ sc" and "0 < p"
  shows "\<bar>round_to_grid p sc a - a\<bar> \<le> a / 2 ^ p"
proof -
  define s where "s = a * 2 ^ sc"
  define n where "n = nat \<lfloor>s\<rfloor>"
  define u :: real where "u = 2 ^ (bit_length n - p)"
  from assms have s52: "2 ^ (p - 1) \<le> s" by (simp add: s_def)
  have "(0::real) < 2 ^ (p - 1)" by simp
  with s52 have spos: "0 < s" by linarith
  from s52 have "(2::int) ^ (p - 1) \<le> \<lfloor>s\<rfloor>" by (simp add: le_floor_iff)
  hence n52: "(2::nat) ^ (p - 1) \<le> n" unfolding n_def by (simp add: le_nat_iff)
  have "(0::nat) < 2 ^ (p - 1)" by simp
  with n52 have npos: "0 < n" by linarith
  from bit_length_bounds[OF npos] have b: "2 ^ (bit_length n - 1) \<le> n" "n < 2 ^ bit_length n"
    by simp_all
  from n52 b(2) have "(2::nat) ^ (p - 1) < 2 ^ bit_length n" by linarith
  hence "p - 1 < bit_length n" by (rule power_less_imp_less_exp[rotated]) simp
  with assms(2) have bl: "p \<le> bit_length n" by linarith
  from spos have "real_of_int \<lfloor>s\<rfloor> \<le> s" by simp
  moreover from spos have "real n = real_of_int \<lfloor>s\<rfloor>" unfolding n_def by simp
  ultimately have ns: "real n \<le> s" by simp
  from b(1) have "real (2 ^ (bit_length n - 1)) \<le> real n" using of_nat_le_iff by blast
  hence "(2::real) ^ (bit_length n - 1) \<le> real n" by simp
  with ns have "2 ^ (bit_length n - 1) \<le> s" by linarith
  moreover from bl assms(2) have "bit_length n - 1 = (bit_length n - p) + (p - 1)" by linarith
  hence "(2::real) ^ (bit_length n - 1) = u * 2 ^ (p - 1)"
    unfolding u_def by (simp only: power_add)
  ultimately have us: "u * 2 ^ (p - 1) \<le> s" by simp
  have upos: "0 < u" by (simp add: u_def)
  have f: "round_to_grid p sc a = of_int (round_ties_even (s / u)) * u / 2 ^ sc"
    by (simp add: round_to_grid_def Let_def s_def n_def u_def)
  have a: "(s / u) * u / 2 ^ sc = a" using upos by (simp add: s_def)
  have "round_to_grid p sc a - a
          = of_int (round_ties_even (s / u)) * u / 2 ^ sc - (s / u) * u / 2 ^ sc"
    by (simp only: f a)
  also have "\<dots> = (of_int (round_ties_even (s / u)) - s / u) * u / 2 ^ sc"
    by (simp only: left_diff_distrib diff_divide_distrib)
  finally have "round_to_grid p sc a - a
          = (of_int (round_ties_even (s / u)) - s / u) * u / 2 ^ sc" .
  hence "\<bar>round_to_grid p sc a - a\<bar> = \<bar>of_int (round_ties_even (s / u)) - s / u\<bar> * u / 2 ^ sc"
    using upos by (simp add: abs_mult)
  also have "\<dots> \<le> (1 / 2) * u / 2 ^ sc"
    using round_ties_even_bounds[of "s / u"] upos
    by (intro divide_right_mono mult_right_mono) simp_all
  also have "\<dots> \<le> (1 / 2) * (s / 2 ^ (p - 1)) / 2 ^ sc"
    using us by (intro divide_right_mono mult_left_mono) (simp_all add: field_simps)
  also have "\<dots> = a / 2 ^ p"
  proof -
    from assms(2) have "(2::real) ^ p = 2 * 2 ^ (p - 1)" by (cases p) simp_all
    thus ?thesis by (simp add: s_def)
  qed
  finally show ?thesis .
qed

lemma round_to_grid_exact:
  assumes "a * 2 ^ sc = real (m * 2 ^ e)" and "m < 2 ^ p"
  shows "round_to_grid p sc a = a"
proof -
  define k where "k = m * 2 ^ e"
  have n: "nat \<lfloor>a * 2 ^ sc\<rfloor> = k" by (simp add: assms(1) k_def del: of_nat_mult of_nat_power)
  from assms(2) have "k < 2 ^ p * 2 ^ e" by (simp add: k_def)
  hence "k < 2 ^ (p + e)" by (simp add: power_add)
  hence ble: "bit_length k \<le> p + e" by (rule bit_length_le)
  define g where "g = bit_length k - p"
  from ble have gle: "g \<le> e" by (simp add: g_def)
  then obtain i where i: "e = g + i" by (auto simp: le_iff_add)
  have "a * 2 ^ sc / 2 ^ g = real (m * 2 ^ i)"
    by (simp add: assms(1) i power_add)
  hence r: "of_int (round_ties_even (a * 2 ^ sc / 2 ^ g)) = a * 2 ^ sc / 2 ^ g"
    by (metis of_int_of_nat_eq round_ties_even_int)
  have "round_to_grid p sc a = of_int (round_ties_even (a * 2 ^ sc / 2 ^ g)) * 2 ^ g / 2 ^ sc"
    unfolding round_to_grid_def Let_def n g_def ..
  also have "\<dots> = a" unfolding r by simp
  finally show ?thesis .
qed

lemma round_to_grid_normal:
  assumes "2 ^ k \<le> a * 2 ^ sc" and "a * 2 ^ sc < 2 ^ Suc k"
  shows "round_to_grid p sc a
           = of_int (round_ties_even (a * 2 ^ sc / 2 ^ (Suc k - p))) * 2 ^ (Suc k - p) / 2 ^ sc"
proof -
  have "(0::real) < 2 ^ k" by simp
  with assms(1) have spos: "0 < a * 2 ^ sc" by linarith
  from assms(1) have "(2::int) ^ k \<le> \<lfloor>a * 2 ^ sc\<rfloor>" by (simp add: le_floor_iff)
  hence l: "(2::nat) ^ k \<le> nat \<lfloor>a * 2 ^ sc\<rfloor>" by (simp add: le_nat_iff)
  from assms(2) have "\<lfloor>a * 2 ^ sc\<rfloor> < (2::int) ^ Suc k" by (simp add: floor_less_iff)
  hence u: "nat \<lfloor>a * 2 ^ sc\<rfloor> < (2::nat) ^ Suc k" using spos by (simp add: nat_less_iff)
  from bit_length_eq[OF l u] show ?thesis
    unfolding round_to_grid_def Let_def by simp
qed


lemma round_to_grid_ge:
  assumes "2 ^ (k + sc) \<le> a * 2 ^ sc" and "0 < p"
  shows "2 ^ k \<le> round_to_grid p sc a"
proof -
  define s where "s = a * 2 ^ sc"
  define n where "n = nat \<lfloor>s\<rfloor>"
  define g where "g = bit_length n - p"
  from assms have sk: "2 ^ (k + sc) \<le> s" by (simp add: s_def)
  have "(0::real) < 2 ^ (k + sc)" by simp
  with sk have spos: "0 < s" by linarith
  from sk have "(2::int) ^ (k + sc) \<le> \<lfloor>s\<rfloor>" by (simp add: le_floor_iff)
  hence nk: "(2::nat) ^ (k + sc) \<le> n" unfolding n_def by (simp add: le_nat_iff)
  have "(0::nat) < 2 ^ (k + sc)" by simp
  with nk have npos: "0 < n" by linarith
  from bit_length_bounds[OF npos] have b: "2 ^ (bit_length n - 1) \<le> n" "n < 2 ^ bit_length n"
    by simp_all
  from nk b(2) have "(2::nat) ^ (k + sc) < 2 ^ bit_length n" by linarith
  hence kb: "k + sc < bit_length n" by (rule power_less_imp_less_exp[rotated]) simp
  from spos have "real_of_int \<lfloor>s\<rfloor> \<le> s" by simp
  moreover from spos have "real n = real_of_int \<lfloor>s\<rfloor>" unfolding n_def by simp
  ultimately have ns: "real n \<le> s" by simp
  from b(1) have "real (2 ^ (bit_length n - 1)) \<le> real n" using of_nat_le_iff by blast
  hence "(2::real) ^ (bit_length n - 1) \<le> real n" by simp
  with ns have bs: "2 ^ (bit_length n - 1) \<le> s" by linarith
  from assms(2) kb have "g \<le> bit_length n - 1" unfolding g_def by linarith
  then obtain i where i: "bit_length n - 1 = g + i" by (auto simp: le_iff_add)
  have pw: "(2::real) ^ (bit_length n - 1) = 2 ^ g * 2 ^ i" by (simp only: i power_add)
  have "real_of_int (2 ^ i) = 2 ^ (bit_length n - 1) / 2 ^ g" unfolding pw by simp
  also have "\<dots> \<le> s / 2 ^ g" using bs by (intro divide_right_mono) simp_all
  finally have "(2::int) ^ i \<le> round_ties_even (s / 2 ^ g)" by (rule round_ties_even_mono_int)
  hence "(2::real) ^ i \<le> of_int (round_ties_even (s / 2 ^ g))"
    by (metis of_int_le_iff of_int_numeral of_int_power)
  hence "(2::real) ^ i * 2 ^ g / 2 ^ sc
           \<le> real_of_int (round_ties_even (s / 2 ^ g)) * 2 ^ g / 2 ^ sc"
    by (intro divide_right_mono mult_right_mono) simp_all
  moreover have "round_to_grid p sc a = of_int (round_ties_even (s / 2 ^ g)) * 2 ^ g / 2 ^ sc"
    by (simp add: round_to_grid_def Let_def s_def n_def g_def)
  moreover have "(2::real) ^ i * 2 ^ g = 2 ^ (bit_length n - 1)" unfolding pw by simp
  moreover from kb have "(2::real) ^ (k + sc) \<le> 2 ^ (bit_length n - 1)"
    by (intro power_increasing) simp_all
  hence "(2::real) ^ k \<le> 2 ^ (bit_length n - 1) / 2 ^ sc"
    by (simp add: power_add field_simps)
  ultimately show ?thesis by simp
qed

subsection \<open>Rounding to a double\<close>

lemma fl_mag_nonneg: "0 \<le> a \<Longrightarrow> 0 \<le> fl_mag a"
  by (simp add: fl_mag_def round_to_grid_nonneg)

lemma fl_exactI:
  assumes "\<bar>x\<bar> * 2 ^ 1074 = real (m * 2 ^ e)" and "m < 2 ^ 53" and "\<bar>x\<bar> < 2 ^ 1024"
  shows "fl x = Finite x"
proof -
  from round_to_grid_exact[OF assms(1,2)] have "fl_mag \<bar>x\<bar> = \<bar>x\<bar>" by (simp add: fl_mag_def)
  with assms(3) show ?thesis by (simp add: fl_def Let_def)
qed

lemma fl_0 [simp]: "fl 0 = Finite 0"
  by (rule fl_exactI[where m = 0 and e = 0]) simp_all

lemma fl_of_int:
  assumes "\<bar>k\<bar> < 2 ^ 53"
  shows "fl (of_int k) = Finite (of_int k)"
proof (rule fl_exactI[where m = "nat \<bar>k\<bar>" and e = 1074])
  show "\<bar>real_of_int k\<bar> * 2 ^ 1074 = real (nat \<bar>k\<bar> * 2 ^ 1074)" by simp
  from assms show "nat \<bar>k\<bar> < 2 ^ 53" by (simp add: nat_less_iff)
  from assms have "\<bar>real_of_int k\<bar> < 2 ^ 53"
    by (metis of_int_abs of_int_less_iff of_int_numeral of_int_power)
  also have "(2::real) ^ 53 < 2 ^ 1024" by (rule power_strict_increasing) simp_all
  finally show "\<bar>real_of_int k\<bar> < 2 ^ 1024" .
qed

lemma fl_numeral [simp]:
  "numeral w < (2::int) ^ 53 \<Longrightarrow> fl (numeral w) = Finite (numeral w)"
  using fl_of_int[of "numeral w"] by simp

lemma fl_neg_numeral [simp]:
  "numeral w < (2::int) ^ 53 \<Longrightarrow> fl (- numeral w) = Finite (- numeral w)"
  using fl_of_int[of "- numeral w"] by simp

lemma fl_1 [simp]: "fl 1 = Finite 1"
  using fl_of_int[of 1] by simp

lemma dyadic_scaled: "j \<le> sc \<Longrightarrow> real m / 2 ^ j * 2 ^ sc = real (m * 2 ^ (sc - j))"
proof -
  assume "j \<le> sc"
  hence "sc = j + (sc - j)" by simp
  hence "(2::real) ^ sc = 2 ^ j * 2 ^ (sc - j)" by (metis power_add)
  thus ?thesis by simp
qed

lemma fl_dyadic:
  assumes "m < 2 ^ 53" and "j \<le> 1074"
  shows "fl (real m / 2 ^ j) = Finite (real m / 2 ^ j)"
proof (rule fl_exactI[where m = m and e = "1074 - j"])
  have nn: "0 \<le> real m / 2 ^ j" by simp
  show "\<bar>real m / 2 ^ j\<bar> * 2 ^ 1074 = real (m * 2 ^ (1074 - j))"
    unfolding abs_of_nonneg[OF nn] by (rule dyadic_scaled[OF assms(2)])
  show "m < 2 ^ 53" by fact
  have "real m / 2 ^ j \<le> real m / 1" by (intro divide_left_mono) simp_all
  also from assms(1) have "real m < 2 ^ 53"
    by (metis of_nat_less_iff of_nat_numeral of_nat_power)
  also have "(2::real) ^ 53 < 2 ^ 1024" by (rule power_strict_increasing) simp_all
  finally show "\<bar>real m / 2 ^ j\<bar> < 2 ^ 1024" unfolding abs_of_nonneg[OF nn] by simp
qed

lemma fl_mag_0 [simp]: "fl_mag 0 = 0"
  unfolding fl_mag_def by (rule round_to_grid_exact[where m = 0 and e = 0]) simp_all

lemma fl_sign:
  "fl x = Finite y \<Longrightarrow> (0 \<le> x \<longrightarrow> 0 \<le> y) \<and> (x \<le> 0 \<longrightarrow> y \<le> 0)"
  using fl_mag_nonneg[of "\<bar>x\<bar>"]
  by (cases "x = 0") (auto simp: fl_def Let_def split: if_splits)

lemma fl_not_NaN [simp]: "fl x \<noteq> NaN"
  by (simp add: fl_def Let_def)

lemma fl_inf_sign: "(fl x = PosInf \<longrightarrow> 0 < x) \<and> (fl x = NegInf \<longrightarrow> x < 0)"
proof -
  show ?thesis by (cases "x = 0") (auto simp: fl_def Let_def split: if_splits)
qed

lemma fl_error:
  assumes "1 \<le> \<bar>x\<bar> * 2 ^ 1022" and "fl x = Finite y"
  shows "\<bar>y - x\<bar> \<le> \<bar>x\<bar> / 2 ^ 53"
proof -
  have "(2::real) ^ 1074 = 2 ^ 1022 * 2 ^ 52" by (simp only: power_add[symmetric]) simp
  hence "\<bar>x\<bar> * 2 ^ 1074 = (\<bar>x\<bar> * 2 ^ 1022) * 2 ^ 52" by simp
  also from assms(1) have "\<dots> \<ge> 1 * 2 ^ 52" by (intro mult_right_mono) simp_all
  finally have "2 ^ (53 - 1) \<le> \<bar>x\<bar> * 2 ^ 1074" by simp
  from round_to_grid_error[OF this] have e: "\<bar>fl_mag \<bar>x\<bar> - \<bar>x\<bar>\<bar> \<le> \<bar>x\<bar> / 2 ^ 53"
    by (simp add: fl_mag_def)
  from assms(2) have "y = (if x < 0 then - fl_mag \<bar>x\<bar> else fl_mag \<bar>x\<bar>)"
    by (simp add: fl_def Let_def split: if_splits)
  with e show ?thesis by (auto simp: abs_if split: if_splits)
qed

lemma fl_overflow:
  assumes "2 ^ 1024 \<le> \<bar>x\<bar>"
  shows "fl x = (if 0 < x then PosInf else NegInf)"
proof -
  from assms have "2 ^ (1024 + 1074) \<le> \<bar>x\<bar> * 2 ^ 1074"
    by (simp only: power_add) (intro mult_right_mono, simp_all)
  from round_to_grid_ge[OF this, of 53] have "2 ^ 1024 \<le> fl_mag \<bar>x\<bar>" by (simp add: fl_mag_def)
  thus ?thesis by (simp add: fl_def Let_def)
qed

lemma fl_finite:
  assumes "1 \<le> \<bar>x\<bar> * 2 ^ 1022" and "\<bar>x\<bar> < 2 ^ 1023"
  shows "\<exists>y. fl x = Finite y \<and> \<bar>y - x\<bar> \<le> \<bar>x\<bar> / 2 ^ 53 \<and> (0 < x \<longrightarrow> 0 < y) \<and> (x < 0 \<longrightarrow> y < 0)"
proof -
  define A where "A = \<bar>x\<bar>"
  define F where "F = fl_mag A"
  define D where "D = A / 2 ^ 53"
  have "(2::real) ^ 1074 = 2 ^ 1022 * 2 ^ 52" by (simp only: power_add[symmetric]) simp
  hence "A * 2 ^ 1074 = (A * 2 ^ 1022) * 2 ^ 52" by simp
  also from assms(1) have "\<dots> \<ge> 1 * 2 ^ 52" unfolding A_def by (intro mult_right_mono) simp_all
  finally have "2 ^ (53 - 1) \<le> A * 2 ^ 1074" by simp
  from round_to_grid_error[OF this] have e: "\<bar>F - A\<bar> \<le> D"
    by (simp add: fl_mag_def F_def D_def)
  have Apos: "0 < A"
  proof (rule ccontr)
    assume "\<not> 0 < A"
    hence "A = 0" unfolding A_def by simp
    with assms(1) show False unfolding A_def by simp
  qed
  have "A / 2 ^ 53 \<le> A / 2" using Apos by (intro divide_left_mono) simp_all
  hence h: "D \<le> A / 2" by (simp only: D_def)
  from abs_le_D1[OF e] abs_le_D2[OF e] have b: "F - A \<le> D" "A - F \<le> D" by simp_all
  from b(1) h have up: "F \<le> A + A / 2" by linarith
  from b(2) h Apos have pos: "0 < F" by linarith
  have "(2::real) ^ 1024 = 2 * 2 ^ 1023" by (simp only: power_Suc[symmetric]) simp
  moreover from assms(2) have "A < 2 ^ 1023" by (simp only: A_def)
  ultimately have "A + A / 2 < 2 ^ 1024" using Apos by linarith
  with up have "\<not> 2 ^ 1024 \<le> F" by linarith
  hence f: "fl x = Finite (if x < 0 then - F else F)"
    by (simp only: fl_def Let_def F_def A_def if_False)
  show ?thesis
  proof (cases "x < 0")
    case True
    hence "A = - x" by (simp add: A_def)
    with e have "\<bar>(- F) - x\<bar> \<le> D" by (simp add: abs_minus_commute)
    with f True pos show ?thesis by (simp add: D_def A_def)
  next
    case False
    hence "A = x" by (simp add: A_def)
    with e have "\<bar>F - x\<bar> \<le> D" by simp
    with f False pos show ?thesis by (simp add: D_def A_def)
  qed
qed

subsection \<open>Evaluating a rounding\<close>


lemma round_to_grid_scaled:
  assumes "2 ^ (p - 1) \<le> a * 2 ^ j" and "a * 2 ^ j < 2 ^ p" and "j \<le> sc" and "0 < p"
  shows "round_to_grid p sc a = of_int (round_ties_even (a * 2 ^ j)) / 2 ^ j"
proof -
  define d where "d = sc - j"
  define k where "k = p - 1 + d"
  from assms(3) have "sc = j + d" by (simp add: d_def)
  hence sc: "(2::real) ^ sc = 2 ^ j * 2 ^ d" by (simp only: power_add)
  have k1: "(2::real) ^ k = 2 ^ (p - 1) * 2 ^ d" by (simp only: k_def power_add)
  from assms(4) have "Suc k = p + d" by (simp add: k_def)
  hence k2: "(2::real) ^ Suc k = 2 ^ p * 2 ^ d" by (simp only: power_add)
  from \<open>Suc k = p + d\<close> have kd: "Suc k - p = d" by simp
  have s: "a * 2 ^ sc = (a * 2 ^ j) * 2 ^ d" by (simp add: sc)
  have l: "2 ^ k \<le> a * 2 ^ sc" unfolding s k1 using assms(1) by (intro mult_right_mono) simp_all
  have u: "a * 2 ^ sc < 2 ^ Suc k" unfolding s k2 using assms(2) by (intro mult_strict_right_mono) simp_all
  have q: "a * 2 ^ sc / 2 ^ d = a * 2 ^ j" by (simp add: s)
  have "round_to_grid p sc a = of_int (round_ties_even (a * 2 ^ j)) * 2 ^ d / 2 ^ sc"
    using round_to_grid_normal[OF l u, of p] unfolding kd q .
  also have "\<dots> = of_int (round_ties_even (a * 2 ^ j)) / 2 ^ j" by (simp add: sc)
  finally show ?thesis .
qed

lemma fl_normal_eval:
  assumes "2 ^ 52 \<le> x * 2 ^ j" and "x * 2 ^ j < 2 ^ 53" and "j \<le> 1074"
  shows "fl x = Finite (of_int (round_ties_even (x * 2 ^ j)) / 2 ^ j)"
proof -
  define r where "r = round_ties_even (x * 2 ^ j)"
  have "(0::real) < 2 ^ 52" by simp
  with assms(1) have "0 < x * 2 ^ j" by linarith
  hence xpos: "0 < x" by (simp add: zero_less_mult_iff)
  have "(2::real) ^ (53 - 1) \<le> x * 2 ^ j" using assms(1) by simp
  from round_to_grid_scaled[OF this assms(2) assms(3)]
  have m: "fl_mag \<bar>x\<bar> = of_int r / 2 ^ j" using xpos by (simp add: fl_mag_def r_def)
  from round_ties_even_bounds[of "x * 2 ^ j"] assms(2)
  have rb: "of_int r < (2::real) ^ 53 + 1" unfolding r_def by arith
  from round_ties_even_nonneg[of "x * 2 ^ j"] \<open>0 < x * 2 ^ j\<close> have rn: "0 \<le> r" by (simp add: r_def)
  have "(1::real) \<le> 2 ^ j" by simp
  hence "of_int r / 2 ^ j \<le> (of_int r :: real) / 1" using rn by (intro divide_left_mono) simp_all
  with rb have "of_int r / 2 ^ j < (2::real) ^ 53 + 1" by simp
  also have "(2::real) ^ 53 + 1 \<le> 2 ^ 54" by simp
  also have "(2::real) ^ 54 \<le> 2 ^ 1024" by (rule power_increasing) simp_all
  finally have "\<not> 2 ^ 1024 \<le> fl_mag \<bar>x\<bar>" unfolding m by simp
  thus ?thesis using xpos m by (simp add: fl_def Let_def r_def)
qed


subsection \<open>Array access\<close>

lemma np_index_nonneg: "0 \<le> i \<Longrightarrow> np_index n i = (if i < int n then Inr (nat i) else Inl IndexError)"
  by (simp add: np_index_def)

lemma set_item_Inr:
  "set_item a i v = Inr a' \<Longrightarrow> 0 \<le> i \<Longrightarrow> i < int (length a) \<and> a' = a[nat i := v]"
  by (auto simp: set_item_def np_index_nonneg split: if_splits)

lemma set_row_Inr:
  "set_row a i v = Inr a' \<Longrightarrow> 0 \<le> i \<Longrightarrow>
     i < int (length a) \<and> (\<exists>row. broadcast_row (length (a ! nat i)) v = Inr row \<and> a' = a[nat i := row])"
  by (auto simp: set_row_def np_index_nonneg split: if_splits sum.splits)

lemma get_item_Inr:
  "get_item a i = Inr x \<Longrightarrow> 0 \<le> i \<Longrightarrow> i < int (length a) \<and> x = a ! nat i"
  by (auto simp: get_item_def np_index_nonneg split: if_splits)

lemma get_item_in_range:
  "0 \<le> i \<Longrightarrow> i < int (length a) \<Longrightarrow> get_item a i = Inr (a ! nat i)"
  by (simp add: get_item_def np_index_nonneg)

subsection \<open>One pass through the loop body\<close>

lemma loop_body_Inr:
  assumes "loop_body T p = Inr p'" and "0 \<le> step p"
  shows "\<exists>s row a.
           integrate T (cb p) (solver p) (np_add (sol_t (solver p)) (num_val (dt p))) = Inr s
         \<and> step p < int (length (ts p)) \<and> step p < int (length (ys p))
         \<and> step p < int (length (ta p))
         \<and> broadcast_row (length (ys p ! nat (step p))) (sol_y s) = Inr row
         \<and> true_anomaly_r T row = Some a
         \<and> p' = p\<lparr>solver := s, ts := (ts p)[nat (step p) := sol_t s],
                  ys := (ys p)[nat (step p) := row],
                  ta := (ta p)[nat (step p) := a], step := step p + 1\<rparr>"
proof -
  from assms(1) obtain s where s: "integrate T (cb p) (solver p) (np_add (sol_t (solver p)) (num_val (dt p))) = Inr s"
    by (auto simp: loop_body_def split: sum.splits)
  from assms(1) s obtain ts1 where ts1: "set_item (ts p) (step p) (sol_t s) = Inr ts1"
    by (auto simp: loop_body_def split: sum.splits)
  from assms(1) s ts1 obtain ys1 where ys1: "set_row (ys p) (step p) (sol_y s) = Inr ys1"
    by (auto simp: loop_body_def split: sum.splits)
  from assms(1) s ts1 ys1 obtain row where row: "get_item ys1 (step p) = Inr row"
    by (auto simp: loop_body_def split: sum.splits)
  from assms(1) s ts1 ys1 row obtain a where a: "true_anomaly_r T row = Some a"
    by (auto simp: loop_body_def split: sum.splits option.splits)
  from assms(1) s ts1 ys1 row a obtain ta1 where ta1: "set_item (ta p) (step p) a = Inr ta1"
    by (auto simp: loop_body_def split: sum.splits)
  from assms(1) s ts1 ys1 row a ta1
  have p': "p' = p\<lparr>solver := s, ts := ts1, ys := ys1, ta := ta1, step := step p + 1\<rparr>"
    by (simp add: loop_body_def)
  from set_item_Inr[OF ts1 assms(2)] have t: "step p < int (length (ts p))" "ts1 = (ts p)[nat (step p) := sol_t s]" by auto
  from set_item_Inr[OF ta1 assms(2)] have ta: "step p < int (length (ta p))" "ta1 = (ta p)[nat (step p) := a]" by auto
  from set_row_Inr[OF ys1 assms(2)] obtain row' where y: "step p < int (length (ys p))"
     "broadcast_row (length (ys p ! nat (step p))) (sol_y s) = Inr row'" "ys1 = (ys p)[nat (step p) := row']" by auto
  from assms(2) y(1) have "nat (step p) < length (ys p)" by linarith
  with get_item_Inr[OF row assms(2)] y have "row = row'" by simp
  with s t ta y a p' show ?thesis by auto
qed

lemma loop_body_frame:
  assumes "loop_body T p = Inr p'"
  shows "step p' = step p + 1" "n_steps p' = n_steps p" "dt p' = dt p" "cb p' = cb p"
        "y0 p' = y0 p" "length (ts p') = length (ts p)" "length (ys p') = length (ys p)"
        "length (ta p') = length (ta p)" "r0 p' = r0 p" "v0 p' = v0 p" "tspan p' = tspan p"
  using assms
  by (auto simp: loop_body_def set_item_def set_row_def split: sum.splits option.splits)

lemma loop_body_constructed:
  assumes "loop_body T p = Inr p'" "constructed p" "loop_cond p"
  shows "constructed p'"
  using assms loop_body_frame[OF assms(1)]
  by (simp add: constructed_def loop_cond_def)

lemma loop_body_keeps:
  assumes "loop_body T p = Inr p'" "0 \<le> step p" "j < nat (step p)"
  shows "ts p' ! j = ts p ! j" "ys p' ! j = ys p ! j" "ta p' ! j = ta p ! j"
  using loop_body_Inr[OF assms(1,2)] assms(3) by auto

lemma loop_body_writes:
  assumes "loop_body T p = Inr p'" "0 \<le> step p"
  shows "integrate T (cb p) (solver p) (np_add (sol_t (solver p)) (num_val (dt p))) = Inr (solver p')"
        "ts p' ! nat (step p) = sol_t (solver p')"
  using loop_body_Inr[OF assms(1,2)] assms(2) by (auto simp: nat_less_iff)

subsection \<open>Chained advances of the solver\<close>





subsection \<open>The stepping loop\<close>

lemma propagate_loop_done:
  "propagate_loop T p = Inr p' \<Longrightarrow> \<not> loop_cond p'"
proof (induction T p rule: propagate_loop.induct)
  case (1 T p)
  show ?case
  proof (cases "loop_cond p")
    case True
    with "1.prems"(1) obtain p1 where b: "loop_body T p = Inr p1" and r: "propagate_loop T p1 = Inr p'"
      by (subst (asm) propagate_loop.simps) (auto split: sum.splits)
    from "1.IH"[OF True b r] show ?thesis .
  next
    case False
    with "1.prems" show ?thesis by (subst (asm) propagate_loop.simps) simp
  qed
qed

lemma propagate_loop_frame:
  "propagate_loop T p = Inr p' \<Longrightarrow>
     n_steps p' = n_steps p \<and> dt p' = dt p \<and> cb p' = cb p \<and> y0 p' = y0 p
     \<and> length (ts p') = length (ts p) \<and> length (ys p') = length (ys p)
     \<and> length (ta p') = length (ta p) \<and> step p \<le> step p'
     \<and> r0 p' = r0 p \<and> v0 p' = v0 p \<and> tspan p' = tspan p"
proof (induction T p rule: propagate_loop.induct)
  case (1 T p)
  show ?case
  proof (cases "loop_cond p")
    case True
    with "1.prems"(1) obtain p1 where b: "loop_body T p = Inr p1" and r: "propagate_loop T p1 = Inr p'"
      by (subst (asm) propagate_loop.simps) (auto split: sum.splits)
    from "1.IH"[OF True b r] loop_body_frame[OF b] show ?thesis by simp
  next
    case False
    with "1.prems" show ?thesis by (subst (asm) propagate_loop.simps) simp
  qed
qed

lemma propagate_loop_constructed:
  "propagate_loop T p = Inr p' \<Longrightarrow> constructed p \<Longrightarrow> constructed p' \<and> step p' = n_steps p'"
proof (induction T p rule: propagate_loop.induct)
  case (1 T p)
  show ?case
  proof (cases "loop_cond p")
    case True
    with "1.prems"(1) obtain p1 where b: "loop_body T p = Inr p1" and r: "propagate_loop T p1 = Inr p'"
      by (subst (asm) propagate_loop.simps) (auto split: sum.splits)
    from "1.IH"[OF True b r loop_body_constructed[OF b "1.prems"(2) True]] show ?thesis .
  next
    case False
    with "1.prems" show ?thesis
      by (subst (asm) propagate_loop.simps) (auto simp: loop_cond_def constructed_def)
  qed
qed

lemma propagate_loop_keeps:
  "propagate_loop T p = Inr p' \<Longrightarrow> 0 \<le> step p \<Longrightarrow> j < nat (step p) \<Longrightarrow>
     ts p' ! j = ts p ! j \<and> ys p' ! j = ys p ! j \<and> ta p' ! j = ta p ! j"
proof (induction T p rule: propagate_loop.induct)
  case (1 T p)
  show ?case
  proof (cases "loop_cond p")
    case True
    with "1.prems"(1) obtain p1 where b: "loop_body T p = Inr p1" and r: "propagate_loop T p1 = Inr p'"
      by (subst (asm) propagate_loop.simps) (auto split: sum.splits)
    have s1: "step p1 = step p + 1" by (rule loop_body_frame[OF b])
    with "1.prems" have "0 \<le> step p1" "j < nat (step p1)" by simp_all
    from "1.IH"[OF True b r this] loop_body_keeps[OF b "1.prems"(2,3)] show ?thesis by simp
  next
    case False
    with "1.prems" show ?thesis by (subst (asm) propagate_loop.simps) simp
  qed
qed

subsection \<open>The constructor\<close>

lemma init_auto:
  "init T state0 tspan_in dt_in coes deg True body =
     (case init T state0 tspan_in dt_in coes deg False body of
        Inl e \<Rightarrow> Inl e
      | Inr p \<Rightarrow> propagate_orbit T p)"
  by (simp add: init_def Let_def split: sum.splits option.splits prod.splits)

lemma resolve_state_Inr:
  assumes "resolve_state T state0 coes deg body = Inr (Some r, Some v)"
  shows "coes \<and> (\<exists>mu rx ry rz vx vy vz. body ''mu'' = Some mu
            \<and> coes2rv T state0 deg mu = Some ((rx, ry, rz), (vx, vy, vz))
            \<and> r = [rx, ry, rz] \<and> v = [vx, vy, vz])"
  using assms
  by (auto simp: resolve_state_def Let_def split: if_splits option.splits prod.splits)

lemma int_ceil_Inr: "int_ceil q = Inr n \<Longrightarrow> \<exists>x. q = Finite x \<and> n = \<lceil>x\<rceil>"
  by (cases q) simp_all

lemma np_zeros_Inr: "np_zeros T n cols z = Inr a \<Longrightarrow> 0 \<le> n \<and> a = replicate (nat n) z"
  by (auto simp: np_zeros_def split: if_splits option.splits)

lemma init_False_Inr:
  assumes "init T state0 tspan_in dt_in coes deg False body = Inr p"
  shows "\<exists>r v a q. resolve_state T state0 coes deg body = Inr (Some r, Some v)
           \<and> py_truediv tspan_in dt_in = Inr (Finite q) \<and> 1 \<le> \<lceil>q\<rceil>
           \<and> true_anomaly_r T (r @ v) = Some a
           \<and> p = \<lparr>r0 = r, v0 = v, y0 = r @ v, tspan = tspan_in, dt = dt_in, cb = body,
                   n_steps = \<lceil>q\<rceil>,
                   ys = (replicate (nat \<lceil>q\<rceil>) (replicate 6 (Finite 0)))[0 := r @ v],
                   ts = (replicate (nat \<lceil>q\<rceil>) (Finite 0))[0 := Finite 0], step = 1,
                   ta = (replicate (nat \<lceil>q\<rceil>) (Finite 0))[0 := a],
                   solver = set_initial_value (r @ v) (Finite 0), rs = None, vs = None\<rparr>"
proof -
  from assms obtain r0a v0a where rs: "resolve_state T state0 coes deg body = Inr (r0a, v0a)"
    by (auto simp: init_def split: sum.splits)
  from assms rs obtain r where r: "r0a = Some r"
    by (cases r0a) (auto simp: init_def getattr_def)
  from assms rs r obtain v where v: "v0a = Some v"
    by (cases v0a) (auto simp: init_def getattr_def)
  from resolve_state_Inr[OF rs[unfolded r v]] have len: "length (r @ v) = 6" by auto
  from assms rs r v obtain q0 where q0: "py_truediv tspan_in dt_in = Inr q0"
    by (cases "py_truediv tspan_in dt_in") (auto simp: init_def getattr_def Let_def)
  from assms rs r v q0 obtain n where n: "int_ceil q0 = Inr n"
    by (cases "int_ceil q0") (auto simp: init_def getattr_def Let_def)
  from int_ceil_Inr[OF n] obtain q where q: "q0 = Finite q" "n = \<lceil>q\<rceil>" by blast
  from assms rs r v q0 n obtain ys0 where ys0: "np_zeros T n 6 (replicate 6 (Finite 0)) = Inr ys0"
    by (cases "np_zeros T n 6 (replicate 6 (Finite 0))")
       (auto simp: init_def getattr_def Let_def)
  from assms rs r v q0 n ys0 obtain ts0 where ts0: "np_zeros T n 1 (Finite 0) = Inr ts0"
    by (cases "np_zeros T n 1 (Finite 0) :: error + npfloat list")
       (auto simp: init_def getattr_def Let_def)
  note y = np_zeros_Inr[OF ys0] and t = np_zeros_Inr[OF ts0]
  have n1: "1 \<le> n"
  proof (rule ccontr)
    assume "\<not> 1 \<le> n"
    with y have "n = 0" by simp
    with assms rs r v q0 n ys0 ts0 t show False
      by (simp add: init_def getattr_def Let_def set_item_def np_index_def)
  qed
  from assms rs r v q0 n ys0 ts0 obtain a where a: "true_anomaly_r T (r @ v) = Some a"
    by (cases "true_anomaly_r T (r @ v)")
       (auto simp: init_def getattr_def Let_def split: sum.splits)
  from n1 len have sr: "set_row (replicate (nat n) (replicate 6 (Finite 0))) 0 (r @ v)
      = Inr ((replicate (nat n) (replicate 6 (Finite 0)))[0 := r @ v])"
    by (simp add: set_row_def np_index_def broadcast_row_def)
  from n1 have si: "\<And>x::npfloat. set_item (replicate (nat n) (Finite 0)) 0 x
      = Inr ((replicate (nat n) (Finite 0))[0 := x])"
    by (simp add: set_item_def np_index_def)
  from assms rs r v q0 n ys0 ts0 y t a sr si have
    "p = \<lparr>r0 = r, v0 = v, y0 = r @ v, tspan = tspan_in, dt = dt_in, cb = body,
                   n_steps = n,
                   ys = (replicate (nat n) (replicate 6 (Finite 0)))[0 := r @ v],
                   ts = (replicate (nat n) (Finite 0))[0 := Finite 0], step = 1,
                   ta = (replicate (nat n) (Finite 0))[0 := a],
                   solver = set_initial_value (r @ v) (Finite 0), rs = None, vs = None\<rparr>"
    by (simp add: init_def getattr_def Let_def)
  with rs r v q0 q n1 a show ?thesis by blast
qed

lemma propagate_orbit_Inr:
  assumes "propagate_orbit T p = Inr p'"
  shows "\<exists>q. propagate_loop T p = Inr q
           \<and> p' = q\<lparr>rs := Some (map (take 3) (ys q)), vs := Some (map (drop 3) (ys q))\<rparr>"
  using assms by (auto simp: propagate_orbit_def split: sum.splits)

lemma init_False_facts:
  assumes "init T state0 tspan_in dt_in coes deg False body = Inr p"
  shows "constructed p" "sample0_is_initial T p"
        "\<exists>q. py_truediv tspan_in dt_in = Inr (Finite q) \<and> n_steps p = \<lceil>q\<rceil>"
        "dt p = dt_in" "cb p = body" "step p = 1"
        "solver p = set_initial_value (y0 p) (Finite 0)"
        "y0 p = r0 p @ v0 p" "tspan p = tspan_in" "coes"
        "\<exists>mu rx ry rz vx vy vz. body ''mu'' = Some mu
            \<and> coes2rv T state0 deg mu = Some ((rx, ry, rz), (vx, vy, vz))
            \<and> r0 p = [rx, ry, rz] \<and> v0 p = [vx, vy, vz]"
proof -
  from init_False_Inr[OF assms] obtain r v a q where
    rs: "resolve_state T state0 coes deg body = Inr (Some r, Some v)" and
    q: "py_truediv tspan_in dt_in = Inr (Finite q)" and
    n: "1 \<le> \<lceil>q\<rceil>" and a: "true_anomaly_r T (r @ v) = Some a" and
    p: "p = \<lparr>r0 = r, v0 = v, y0 = r @ v, tspan = tspan_in, dt = dt_in, cb = body,
                   n_steps = \<lceil>q\<rceil>,
                   ys = (replicate (nat \<lceil>q\<rceil>) (replicate 6 (Finite 0)))[0 := r @ v],
                   ts = (replicate (nat \<lceil>q\<rceil>) (Finite 0))[0 := Finite 0], step = 1,
                   ta = (replicate (nat \<lceil>q\<rceil>) (Finite 0))[0 := a],
                   solver = set_initial_value (r @ v) (Finite 0), rs = None, vs = None\<rparr>"
    by blast
  from n p show "constructed p" by (simp add: constructed_def)
  from n p a show "sample0_is_initial T p"
    by (simp add: sample0_is_initial_def get_item_def np_index_def)
  from p q show "\<exists>q. py_truediv tspan_in dt_in = Inr (Finite q) \<and> n_steps p = \<lceil>q\<rceil>" by simp
  from p show "dt p = dt_in" "cb p = body" "step p = 1"
     "solver p = set_initial_value (y0 p) (Finite 0)" "y0 p = r0 p @ v0 p"
     "tspan p = tspan_in" by simp_all
  from resolve_state_Inr[OF rs] show "coes" by simp
  from resolve_state_Inr[OF rs] p
  show "\<exists>mu rx ry rz vx vy vz. body ''mu'' = Some mu
            \<and> coes2rv T state0 deg mu = Some ((rx, ry, rz), (vx, vy, vz))
            \<and> r0 p = [rx, ry, rz] \<and> v0 p = [vx, vy, vz]" by simp
qed

lemma propagate_orbit_facts:
  assumes "propagate_orbit T p = Inr p'" "constructed p"
  shows "constructed p'" "step p' = n_steps p'" "n_steps p' = n_steps p" "dt p' = dt p"
        "cb p' = cb p" "y0 p' = y0 p"
        "sample0_is_initial T p \<Longrightarrow> sample0_is_initial T p'"
        "r0 p' = r0 p" "v0 p' = v0 p" "tspan p' = tspan p"
proof -
  from propagate_orbit_Inr[OF assms(1)] obtain q where
    q: "propagate_loop T p = Inr q" and
    p': "p' = q\<lparr>rs := Some (map (take 3) (ys q)), vs := Some (map (drop 3) (ys q))\<rparr>"
    by blast
  from propagate_loop_constructed[OF q assms(2)] p'
  show c: "constructed p'" and "step p' = n_steps p'" by (simp_all add: constructed_def)
  from propagate_loop_frame[OF q] p'
  show f: "n_steps p' = n_steps p" "dt p' = dt p" "cb p' = cb p" "y0 p' = y0 p" by simp_all
  from propagate_loop_frame[OF q] p'
  show "r0 p' = r0 p" "v0 p' = v0 p" "tspan p' = tspan p" by simp_all
  assume s0: "sample0_is_initial T p"
  from assms(2) have st: "0 \<le> step p" "0 < nat (step p)" by (simp_all add: constructed_def)
  from propagate_loop_keeps[OF q st] p'
  have k: "ts p' ! 0 = ts p ! 0" "ys p' ! 0 = ys p ! 0" "ta p' ! 0 = ta p ! 0" by simp_all
  from propagate_loop_frame[OF q] p'
  have l: "length (ts p') = length (ts p)" "length (ys p') = length (ys p)"
          "length (ta p') = length (ta p)" by simp_all
  from s0 k l f(4) show "sample0_is_initial T p'"
    by (simp add: sample0_is_initial_def get_item_def np_index_def split: option.splits if_splits)
qed

lemma init_decompose:
  assumes "init T state0 tspan_in dt_in coes deg auto_orbit_prop body = Inr p"
  shows "\<exists>p0. init T state0 tspan_in dt_in coes deg False body = Inr p0
            \<and> (if auto_orbit_prop then propagate_orbit T p0 = Inr p else p = p0)"
proof (cases auto_orbit_prop)
  case False
  with assms show ?thesis by simp
next
  case True
  with assms show ?thesis by (auto simp: init_auto split: sum.splits)
qed

lemma init_facts:
  assumes "init T state0 tspan_in dt_in coes deg auto_orbit_prop body = Inr p"
  shows "constructed p" "sample0_is_initial T p"
        "\<exists>q. py_truediv tspan_in dt_in = Inr (Finite q) \<and> n_steps p = \<lceil>q\<rceil>"
        "dt p = dt_in" "cb p = body" "y0 p = r0 p @ v0 p" "tspan p = tspan_in" "coes"
        "\<exists>mu rx ry rz vx vy vz. body ''mu'' = Some mu
            \<and> coes2rv T state0 deg mu = Some ((rx, ry, rz), (vx, vy, vz))
            \<and> r0 p = [rx, ry, rz] \<and> v0 p = [vx, vy, vz]"
proof -
  from init_decompose[OF assms] obtain p0 where
    p0: "init T state0 tspan_in dt_in coes deg False body = Inr p0" and
    c: "if auto_orbit_prop then propagate_orbit T p0 = Inr p else p = p0" by blast
  note f = init_False_facts[OF p0]
  have e: "constructed p \<and> (sample0_is_initial T p0 \<longrightarrow> sample0_is_initial T p)
         \<and> n_steps p = n_steps p0 \<and> dt p = dt p0 \<and> cb p = cb p0 \<and> y0 p = y0 p0
         \<and> r0 p = r0 p0 \<and> v0 p = v0 p0 \<and> tspan p = tspan p0"
  proof (cases auto_orbit_prop)
    case False
    with c f(1) show ?thesis by simp
  next
    case True
    with c have pr: "propagate_orbit T p0 = Inr p" by simp
    from propagate_orbit_facts[OF pr f(1)] show ?thesis by simp
  qed
  from e show "constructed p" by simp
  from e f(2) show "sample0_is_initial T p" by simp
  from e f(3) show "\<exists>q. py_truediv tspan_in dt_in = Inr (Finite q) \<and> n_steps p = \<lceil>q\<rceil>" by simp
  from e f(4,5,8,9) show "dt p = dt_in" "cb p = body" "y0 p = r0 p @ v0 p" "tspan p = tspan_in"
    by simp_all
  from f(10) show "coes" .
  from e f(11) show "\<exists>mu rx ry rz vx vy vz. body ''mu'' = Some mu
            \<and> coes2rv T state0 deg mu = Some ((rx, ry, rz), (vx, vy, vz))
            \<and> r0 p = [rx, ry, rz] \<and> v0 p = [vx, vy, vz]" by simp
qed


subsection \<open>The solver across the loop\<close>



lemma propagate_loop_solver:
  "propagate_loop T p = Inr p' \<Longrightarrow>
     advance_n T (cb p) (num_val (dt p)) (nat (n_steps p - step p)) (solver p) = Inr (solver p')"
proof (induction T p rule: propagate_loop.induct)
  case (1 T p)
  show ?case
  proof (cases "loop_cond p")
    case True
    with "1.prems"(1) obtain p1 where b: "loop_body T p = Inr p1" and r: "propagate_loop T p1 = Inr p'"
      by (subst (asm) propagate_loop.simps) (auto split: sum.splits)
    from True have lt: "step p < n_steps p" by (simp add: loop_cond_def)
    hence k: "nat (n_steps p - step p) = Suc (nat (n_steps p - (step p + 1)))" by simp
    from b have i: "integrate T (cb p) (solver p) (np_add (sol_t (solver p)) (num_val (dt p))) = Inr (solver p1)"
      by (auto simp: loop_body_def split: sum.splits option.splits)
    from "1.IH"[OF True b r] loop_body_frame[OF b] i show ?thesis
      unfolding k by simp
  next
    case False
    with "1.prems" show ?thesis
      by (subst (asm) propagate_loop.simps) (simp add: loop_cond_def)
  qed
qed

lemma propagate_loop_times:
  "propagate_loop T p = Inr p' \<Longrightarrow> 0 \<le> step p \<Longrightarrow> step p + int j < n_steps p \<Longrightarrow>
     \<exists>s. advance_n T (cb p) (num_val (dt p)) (Suc j) (solver p) = Inr s
        \<and> ts p' ! nat (step p + int j) = sol_t s"
proof (induction T p arbitrary: j rule: propagate_loop.induct)
  case (1 T p)
  from "1.prems"(3) have c: "loop_cond p" by (simp add: loop_cond_def)
  with "1.prems"(1) obtain p1 where b: "loop_body T p = Inr p1" and r: "propagate_loop T p1 = Inr p'"
    by (subst (asm) propagate_loop.simps) (auto split: sum.splits)
  note f = loop_body_frame[OF b]
  note w = loop_body_writes[OF b "1.prems"(2)]
  show ?case
  proof (cases j)
    case 0
    from f(1) "1.prems"(2) have "0 \<le> step p1" "nat (step p) < nat (step p1)" by simp_all
    from propagate_loop_keeps[OF r this] w 0 show ?thesis by simp
  next
    case (Suc j')
    from f(1) "1.prems"(2) have s1: "0 \<le> step p1" by simp
    from f(1,2) "1.prems"(3) Suc have s2: "step p1 + int j' < n_steps p1" by simp
    from "1.IH"[OF c b r s1 s2] obtain s where
      "advance_n T (cb p1) (num_val (dt p1)) (Suc j') (solver p1) = Inr s"
      "ts p' ! nat (step p1 + int j') = sol_t s" by blast
    moreover have "step p1 + int j' = step p + int j" using f(1) Suc by simp
    ultimately show ?thesis using w(1) f(3,4) Suc by simp
  qed
qed

lemma run_times:
  assumes i: "init T state0 tspan_in dt_in coes deg False body = Inr p"
      and r: "propagate_orbit T p = Inr p'"
      and k: "1 \<le> k" "int k < n_steps p"
  shows "\<exists>s. advance_n T body (num_val dt_in) k (solver p) = Inr s
            \<and> get_item (ts p') (int k) = Inr (sol_t s)"
proof -
  note f = init_False_facts[OF i]
  from propagate_orbit_Inr[OF r] obtain q where
    q: "propagate_loop T p = Inr q" and
    p': "p' = q\<lparr>rs := Some (map (take 3) (ys q)), vs := Some (map (drop 3) (ys q))\<rparr>"
    by blast
  from k obtain j where j: "k = Suc j" by (cases k) auto
  from f(6) have "0 \<le> step p" by simp
  moreover from f(6) k j have "step p + int j < n_steps p" by simp
  ultimately obtain s where s: "advance_n T (cb p) (num_val (dt p)) (Suc j) (solver p) = Inr s"
      "ts q ! nat (step p + int j) = sol_t s"
    using propagate_loop_times[OF q] by blast
  from f(6) j have e: "nat (step p + int j) = k" by simp
  from propagate_orbit_facts(1,3)[OF r f(1)] k have "int k < int (length (ts p'))"
    by (simp add: constructed_def)
  hence "get_item (ts p') (int k) = Inr (ts p' ! k)" by (simp add: get_item_in_range)
  with s e p' f(4,5) j show ?thesis by simp
qed

subsection \<open>The quotient \<^verbatim>\<open>tspan/dt\<close>\<close>

lemma py_truediv_finite:
  "num_val x = Finite a \<Longrightarrow> num_val y = Finite b \<Longrightarrow> b \<noteq> 0
   \<Longrightarrow> py_truediv x y = Inr (fl (a / b))"
  by (cases x; cases y) simp_all

lemma init_after_quotient:
  assumes "py_truediv tspan_in dt_in = Inr q" and "int_ceil q = Inl err"
  shows "init T state0 tspan_in dt_in coes deg auto_orbit_prop body
           = raises_after_state T state0 coes deg body err"
  using assms
  by (simp add: init_def raises_after_state_def Let_def split: sum.splits prod.splits)

lemma init_after_count:
  assumes "py_truediv tspan_in dt_in = Inr (Finite q)"
  shows "q \<le> - 1 \<Longrightarrow> init T state0 tspan_in dt_in coes deg auto_orbit_prop body
           = raises_after_state T state0 coes deg body ValueError"
    and "- 1 < q \<Longrightarrow> q \<le> 0 \<Longrightarrow> init T state0 tspan_in dt_in coes deg auto_orbit_prop body
           = raises_after_state T state0 coes deg body IndexError"
proof -
  assume "q \<le> - 1"
  hence "\<lceil>q\<rceil> < 0" by (simp add: ceiling_less_iff)
  with assms show "init T state0 tspan_in dt_in coes deg auto_orbit_prop body
           = raises_after_state T state0 coes deg body ValueError"
    by (simp add: init_def raises_after_state_def Let_def np_zeros_def
        split: sum.splits prod.splits)
next
  assume "- 1 < q" "q \<le> 0"
  hence "\<lceil>q\<rceil> = 0" by (simp add: ceiling_eq_iff)
  with assms show "init T state0 tspan_in dt_in coes deg auto_orbit_prop body
           = raises_after_state T state0 coes deg body IndexError"
    by (simp add: init_def raises_after_state_def Let_def np_zeros_def set_item_def np_index_def
        split: sum.splits prod.splits)
qed

lemma init_returns:
  assumes "py_truediv tspan_in dt_in = Inr (Finite q)" and "0 < q"
    and "zeros_failure T (nat \<lceil>q\<rceil>) 6 = None" and "zeros_failure T (nat \<lceil>q\<rceil>) 1 = None"
    and "body ''mu'' = Some mu"
    and "coes2rv T state0 deg mu = Some ((rx, ry, rz), (vx, vy, vz))"
    and "true_anomaly_r T [rx, ry, rz, vx, vy, vz] = Some a0"
  shows "\<exists>p. init T state0 tspan_in dt_in True deg False body = Inr p \<and> n_steps p = \<lceil>q\<rceil>"
proof -
  from assms(2) have "0 < \<lceil>q\<rceil>" by (simp add: less_ceiling_iff)
  hence "\<lceil>q\<rceil> \<noteq> 0" by linarith
  with assms show ?thesis
    by (simp add: init_def resolve_state_def getattr_def np_zeros_def set_item_def set_row_def
        np_index_def broadcast_row_def Let_def)
qed

lemma py_truediv_by_zero:
  assumes "num_val x = Finite a" and "num_val y = Finite 0"
  shows "py_truediv x y =
           (if \<not> is_numpy x \<and> \<not> is_numpy y then Inl ZeroDivisionError
            else if a = 0 then Inr NaN
            else Inr (signed_inf (a < 0)))"
  using assms by (cases x; cases y) simp_all

lemma raises_after_state_Inl:
  "\<exists>e. raises_after_state T state0 coes deg body err = Inl e
        \<and> (err \<noteq> InvalidConfigurationError \<longrightarrow> e \<noteq> InvalidConfigurationError)"
  by (auto simp: raises_after_state_def resolve_state_def getattr_def Let_def
      split: sum.splits option.splits prod.splits)

lemma init_Inl:
  assumes "py_truediv tspan_in dt_in = Inl err"
  shows "init T state0 tspan_in dt_in coes deg auto_orbit_prop body
           = raises_after_state T state0 coes deg body err"
  using assms
  by (simp add: init_def raises_after_state_def Let_def split: sum.splits prod.splits)

lemma fl_le_minus_one:
  assumes "x \<le> - 1" and "fl x = Finite y"
  shows "y \<le> - 1"
proof -
  from assms(1) have "(2::real) ^ (0 + 1074) \<le> \<bar>x\<bar> * 2 ^ 1074" by simp
  from round_to_grid_ge[OF this, of 53] have "1 \<le> fl_mag \<bar>x\<bar>" by (simp add: fl_mag_def)
  with assms show ?thesis by (simp add: fl_def Let_def split: if_splits)
qed

lemma fl_nonpositive:
  assumes "x \<le> 0"
  shows "fl x = NegInf \<or> (\<exists>y. fl x = Finite y \<and> y \<le> 0)"
proof (cases "fl x")
  case (Finite y)
  with fl_sign[of x y] assms show ?thesis by simp
next
  case PosInf
  with fl_inf_sign[of x] assms show ?thesis by simp
next
  case NegInf
  then show ?thesis by simp
next
  case NaN
  then show ?thesis by simp
qed

subsection \<open>The equations of motion, step by step\<close>








subsection \<open>One step of the loop\<close>



subsection \<open>The concrete run, evaluated\<close>

lemmas example_eval =
  init_def resolve_state_def getattr_def example_tools_def example_body_def
  example_coes2rv_def example_true_anomaly_def example_y0_def np_zeros_def set_item_def
  set_row_def get_item_def np_index_def broadcast_row_def set_initial_value_def
  propagate_orbit_def loop_cond_def loop_body_def integrate_def successful_def observe_def
  Let_def eval_nat_numeral

lemma init_example:
  "init (example_tools integrator) [] (PyFloat (Finite 30)) (PyFloat (Finite 10)) True True False
     example_body = Inr example_initial"
  by (simp add: example_eval example_initial_def)

lemma propagate_example:
  "propagate_orbit (example_tools reach_all) example_initial = Inr example_final"
  by (simp add: example_eval example_initial_def example_final_def reach_all_def
      propagate_loop.simps)


section \<open>The claims\<close>

text \<open>
  C1. The claim: given a raw 6-component state vector (\<open>coes\<close> false), the resolved
  initial position is the first three components, the velocity the last three, and
  \<open>y0\<close> their concatenation. The source does otherwise: lines 30 and 31 both assign
  \<open>r0\<close>, so \<open>r0\<close> ends as the last three components, \<open>v0\<close> is never assigned, and
  line 33 raises \<^verbatim>\<open>AttributeError\<close> when it reads \<open>v0\<close>. This holds for every
  input with \<open>coes\<close> false; no \<open>y0\<close> is recorded and no instance is returned.
\<close>

theorem raw_state_constructor_raises:
  "resolve_state T state0 False deg body = Inr (Some (drop 3 state0), None)
   \<and> init T state0 tspan_in dt_in False deg auto_orbit_prop body = Inl AttributeError"
  by (simp add: init_def resolve_state_def getattr_def)

text \<open>
  C2. The claim: when the integrator reports a failure at some step, the loop halts, no
  further sample is written and the later entries stay zero. The source does otherwise:
  the loop condition tests the bound method \<^verbatim>\<open>solver.successful\<close>, which is always
  true, so the loop runs to \<open>n_steps\<close> whatever the integrator reports. In the run
  below the first advance stops at time 5 and reports failure; the loop still makes the
  second advance and writes sample 2 (time 15), the counter ends at 3 and
  \<^verbatim>\<open>successful()\<close> answers false.
\<close>

theorem loop_continues_after_failure:
  "observe (init (example_tools stop_first_call) [] (PyFloat (Finite 30)) (PyFloat (Finite 10))
              True True True example_body)
     = Inr ([Finite 0, Finite 5, Finite 15],
            [[Finite 7000, Finite 0, Finite 0, Finite 0, Finite (15 / 2), Finite 0],
             [Finite 7001, Finite 1, Finite 1, Finite 1, Finite (17 / 2), Finite 1],
             [Finite 7002, Finite 2, Finite 2, Finite 2, Finite (19 / 2), Finite 2]],
            [Finite 7000, Finite 7001, Finite 7002],
            3, False)"
  by (simp add: example_eval stop_first_call_def propagate_loop.simps)

text \<open>
  C3, as the source has it. The claim was that for \<open>tspan > 0\<close> and \<open>dt > 0\<close> the step
  count is \<open>ceil(tspan/dt)\<close> and the three arrays have \<open>n_steps\<close> entries each. The
  arrays do have \<open>n_steps\<close> entries in every instance the constructor returns, but the
  count is the ceiling of the \<^emph>\<open>double\<close> quotient \<^verbatim>\<open>self.tspan/self.dt\<close>, which is
  the exact quotient rounded to the nearest double. For \<open>tspan = 1.0\<close> and
  \<open>dt = 0.3333333333333333\<close> the exact quotient is a little above 3, its ceiling is 4,
  and the double quotient is \<open>3.0\<close>: the constructor allocates 3 rows.

  What holds, whatever the signs of the inputs: every instance returned has
  \<open>n_steps = ceil(q)\<close> for the double \<open>q\<close> the division returned, and arrays of
  exactly \<open>n_steps\<close> rows. For positive finite \<open>tspan\<close> and \<open>dt\<close> whose exact quotient
  is in the normal range, \<open>q\<close> is positive and within a relative error of \<open>2^-53\<close> of
  the exact quotient, and it is the exact quotient when that is a double. When the exact
  quotient is \<open>2^1024\<close> or more the division returns \<open>inf\<close> and
  \<^verbatim>\<open>int(np.ceil(inf))\<close> raises \<^verbatim>\<open>OverflowError\<close>. On the orbital-element path
  the constructor does return an instance whenever the quotient is a positive double, the
  arrays can be allocated and the two functions of \<^verbatim>\<open>tools\<close> return.
\<close>

theorem step_count_and_allocation:
  "(\<forall>p. init T state0 tspan_in dt_in coes deg auto_orbit_prop body = Inr p \<longrightarrow>
        (\<exists>q. py_truediv tspan_in dt_in = Inr (Finite q) \<and> n_steps p = \<lceil>q\<rceil>)
        \<and> int (length (ts p)) = n_steps p
        \<and> int (length (ys p)) = n_steps p
        \<and> int (length (ta p)) = n_steps p)
   \<and> (\<forall>a b. num_val tspan_in = Finite a \<and> num_val dt_in = Finite b \<and> 0 < a \<and> 0 < b
          \<and> 1 \<le> a / b * 2 ^ 1022 \<and> a / b < 2 ^ 1023 \<longrightarrow>
        (\<exists>q. py_truediv tspan_in dt_in = Inr (Finite q) \<and> 0 < q
           \<and> \<bar>q - a / b\<bar> \<le> a / b / 2 ^ 53
           \<and> (is_double (a / b) \<longrightarrow> q = a / b)))
   \<and> (\<forall>a b. num_val tspan_in = Finite a \<and> num_val dt_in = Finite b \<and> 0 < a \<and> 0 < b
          \<and> 2 ^ 1024 \<le> a / b \<longrightarrow>
        init T state0 tspan_in dt_in coes deg auto_orbit_prop body
          = raises_after_state T state0 coes deg body OverflowError)
   \<and> (\<forall>q mu rx ry rz vx vy vz a0.
        py_truediv tspan_in dt_in = Inr (Finite q) \<and> 0 < q
        \<and> zeros_failure T (nat \<lceil>q\<rceil>) 6 = None \<and> zeros_failure T (nat \<lceil>q\<rceil>) 1 = None
        \<and> body ''mu'' = Some mu
        \<and> coes2rv T state0 deg mu = Some ((rx, ry, rz), (vx, vy, vz))
        \<and> true_anomaly_r T [rx, ry, rz, vx, vy, vz] = Some a0 \<longrightarrow>
        (\<exists>p. init T state0 tspan_in dt_in True deg False body = Inr p \<and> n_steps p = \<lceil>q\<rceil>))"
proof (intro conjI allI impI)
  fix p
  assume i: "init T state0 tspan_in dt_in coes deg auto_orbit_prop body = Inr p"
  from init_facts(3)[OF i]
  show "\<exists>q. py_truediv tspan_in dt_in = Inr (Finite q) \<and> n_steps p = \<lceil>q\<rceil>" .
  from init_facts(1)[OF i]
  show "int (length (ts p)) = n_steps p" "int (length (ys p)) = n_steps p"
    "int (length (ta p)) = n_steps p"
    by (simp_all add: constructed_def)
next
  fix a b :: real
  assume h: "num_val tspan_in = Finite a \<and> num_val dt_in = Finite b \<and> 0 < a \<and> 0 < b
          \<and> 1 \<le> a / b * 2 ^ 1022 \<and> a / b < 2 ^ 1023"
  hence pos: "0 < a / b" by simp
  from h have d: "py_truediv tspan_in dt_in = Inr (fl (a / b))"
    by (intro py_truediv_finite) simp_all
  from h pos have "1 \<le> \<bar>a / b\<bar> * 2 ^ 1022" and "\<bar>a / b\<bar> < 2 ^ 1023"
    by (simp_all only: abs_of_pos)
  from fl_finite[OF this] pos obtain q where
    q: "fl (a / b) = Finite q" "\<bar>q - a / b\<bar> \<le> \<bar>a / b\<bar> / 2 ^ 53" "0 < q" by blast
  from q(2) pos have "\<bar>q - a / b\<bar> \<le> a / b / 2 ^ 53" by (simp only: abs_of_pos)
  moreover from q(1) have "is_double (a / b) \<longrightarrow> q = a / b" by (simp add: is_double_def)
  ultimately show "\<exists>q. py_truediv tspan_in dt_in = Inr (Finite q) \<and> 0 < q
           \<and> \<bar>q - a / b\<bar> \<le> a / b / 2 ^ 53
           \<and> (is_double (a / b) \<longrightarrow> q = a / b)"
    using d q(1,3) by auto
next
  fix a b :: real
  assume h: "num_val tspan_in = Finite a \<and> num_val dt_in = Finite b \<and> 0 < a \<and> 0 < b
          \<and> 2 ^ 1024 \<le> a / b"
  hence pos: "0 < a / b" by simp
  from h have d: "py_truediv tspan_in dt_in = Inr (fl (a / b))"
    by (intro py_truediv_finite) simp_all
  from h pos have "2 ^ 1024 \<le> \<bar>a / b\<bar>" by (simp only: abs_of_pos)
  from fl_overflow[OF this] pos have "fl (a / b) = PosInf" by simp
  with d have "py_truediv tspan_in dt_in = Inr PosInf" by simp
  from init_after_quotient[OF this]
  show "init T state0 tspan_in dt_in coes deg auto_orbit_prop body
          = raises_after_state T state0 coes deg body OverflowError" by simp
next
  fix q mu rx ry rz vx vy vz a0
  assume "py_truediv tspan_in dt_in = Inr (Finite q) \<and> 0 < q
        \<and> zeros_failure T (nat \<lceil>q\<rceil>) 6 = None \<and> zeros_failure T (nat \<lceil>q\<rceil>) 1 = None
        \<and> body ''mu'' = Some mu
        \<and> coes2rv T state0 deg mu = Some ((rx, ry, rz), (vx, vy, vz))
        \<and> true_anomaly_r T [rx, ry, rz, vx, vy, vz] = Some a0"
  thus "\<exists>p. init T state0 tspan_in dt_in True deg False body = Inr p \<and> n_steps p = \<lceil>q\<rceil>"
    using init_returns by blast
qed

theorem step_count_and_allocation_witness:
  "init (example_tools reach_all) [] (PyFloat (Finite 30)) (PyFloat (Finite 10)) True True False
     example_body = Inr example_initial
   \<and> py_truediv (PyFloat (Finite 30)) (PyFloat (Finite 10)) = Inr (Finite 3)
   \<and> n_steps example_initial = 3
   \<and> int (length (ts example_initial)) = n_steps example_initial
   \<and> int (length (ys example_initial)) = n_steps example_initial
   \<and> int (length (ta example_initial)) = n_steps example_initial"
proof -
  note i = init_example[of reach_all]
  from step_count_and_allocation[of "example_tools reach_all" "[]" "PyFloat (Finite 30)"
      "PyFloat (Finite 10)" True True False example_body] i
  have "int (length (ts example_initial)) = n_steps example_initial
        \<and> int (length (ys example_initial)) = n_steps example_initial
        \<and> int (length (ta example_initial)) = n_steps example_initial" by blast
  moreover have "py_truediv (PyFloat (Finite 30)) (PyFloat (Finite 10)) = Inr (Finite 3)"
    by simp
  moreover have "n_steps example_initial = 3" by (simp add: example_initial_def)
  ultimately show ?thesis using i by blast
qed

theorem step_count_below_ceiling:
  "observe (init (example_tools reach_all) [] (PyFloat (Finite 1))
              (PyFloat (Finite (6004799503160661 / 18014398509481984)))
              True True False example_body)
     = Inr ([Finite 0, Finite 0, Finite 0],
            [[Finite 7000, Finite 0, Finite 0, Finite 0, Finite (15 / 2), Finite 0],
             [Finite 0, Finite 0, Finite 0, Finite 0, Finite 0, Finite 0],
             [Finite 0, Finite 0, Finite 0, Finite 0, Finite 0, Finite 0]],
            [Finite 7000, Finite 0, Finite 0],
            1, True)
   \<and> \<lceil>1 / (6004799503160661 / 18014398509481984) :: real\<rceil> = 4
   \<and> is_double (6004799503160661 / 18014398509481984)"
proof -
  have q: "fl (18014398509481984 / 6004799503160661) = Finite 3"
    by (subst fl_normal_eval[where j = 51]) (simp_all add: round_ties_even_def Let_def)
  have d: "is_double (6004799503160661 / 18014398509481984)"
    unfolding is_double_def using fl_dyadic[of 6004799503160661 54] by simp
  have c: "\<lceil>1 / (6004799503160661 / 18014398509481984) :: real\<rceil> = 4"
    by (simp add: ceiling_eq_iff)
  have "observe (init (example_tools reach_all) [] (PyFloat (Finite 1))
              (PyFloat (Finite (6004799503160661 / 18014398509481984)))
              True True False example_body)
     = Inr ([Finite 0, Finite 0, Finite 0],
            [[Finite 7000, Finite 0, Finite 0, Finite 0, Finite (15 / 2), Finite 0],
             [Finite 0, Finite 0, Finite 0, Finite 0, Finite 0, Finite 0],
             [Finite 0, Finite 0, Finite 0, Finite 0, Finite 0, Finite 0]],
            [Finite 7000, Finite 0, Finite 0],
            1, True)"
    by (simp add: example_eval q)
  with c d show ?thesis by blast
qed

text \<open>
  C4. Sample 0 of the trajectory is the initial condition. Every instance the constructor
  returns was given orbital elements; its \<open>r0\<close> and \<open>v0\<close> are the position and the
  velocity \<^verbatim>\<open>coes2rv\<close> returned for \<open>state0\<close>, \<open>deg\<close> and the central body's
  \<open>mu\<close>, its \<open>y0\<close> is their concatenation, and sample 0 is time 0, the state \<open>y0\<close>
  and the true anomaly of \<open>y0\<close>. It is still so after any later call of
  \<^verbatim>\<open>propagate_orbit\<close>: the loop never writes index 0.
\<close>

theorem sample0_initial_condition:
  assumes "init T state0 tspan_in dt_in coes deg auto_orbit_prop body = Inr p"
  shows "(\<exists>mu rx ry rz vx vy vz.
            body ''mu'' = Some mu
          \<and> coes2rv T state0 deg mu = Some ((rx, ry, rz), (vx, vy, vz))
          \<and> r0 p = [rx, ry, rz] \<and> v0 p = [vx, vy, vz]
          \<and> y0 p = [rx, ry, rz, vx, vy, vz])
       \<and> get_item (ts p) 0 = Inr (Finite 0)
       \<and> get_item (ys p) 0 = Inr (y0 p)
       \<and> (\<exists>a. true_anomaly_r T (y0 p) = Some a \<and> get_item (ta p) 0 = Inr a)
       \<and> (\<forall>p'. propagate_orbit T p = Inr p' \<longrightarrow>
             y0 p' = y0 p
           \<and> get_item (ts p') 0 = Inr (Finite 0)
           \<and> get_item (ys p') 0 = Inr (y0 p)
           \<and> (\<exists>a. true_anomaly_r T (y0 p) = Some a \<and> get_item (ta p') 0 = Inr a))"
proof -
  note f = init_facts[OF assms]
  have s: "get_item (ts q) 0 = Inr (Finite 0) \<and> get_item (ys q) 0 = Inr (y0 q)
         \<and> (\<exists>a. true_anomaly_r T (y0 q) = Some a \<and> get_item (ta q) 0 = Inr a)"
    if "sample0_is_initial T q" for q
    using that by (auto simp: sample0_is_initial_def split: option.splits)
  from f(6,9) have "\<exists>mu rx ry rz vx vy vz.
            body ''mu'' = Some mu
          \<and> coes2rv T state0 deg mu = Some ((rx, ry, rz), (vx, vy, vz))
          \<and> r0 p = [rx, ry, rz] \<and> v0 p = [vx, vy, vz]
          \<and> y0 p = [rx, ry, rz, vx, vy, vz]"
    by auto
  moreover note s[OF f(2)]
  moreover have "y0 p' = y0 p
           \<and> get_item (ts p') 0 = Inr (Finite 0)
           \<and> get_item (ys p') 0 = Inr (y0 p)
           \<and> (\<exists>a. true_anomaly_r T (y0 p) = Some a \<and> get_item (ta p') 0 = Inr a)"
    if "propagate_orbit T p = Inr p'" for p'
    using s[OF propagate_orbit_facts(7)[OF that f(1,2)]] propagate_orbit_facts(6)[OF that f(1)]
    by simp
  ultimately show ?thesis by blast
qed

theorem sample0_initial_condition_witness:
  "init (example_tools reach_all) [] (PyFloat (Finite 30)) (PyFloat (Finite 10)) True True False
     example_body = Inr example_initial
   \<and> example_body ''mu'' = Some 398600
   \<and> coes2rv (example_tools reach_all) [] True 398600
       = Some ((Finite 7000, Finite 0, Finite 0), (Finite 0, Finite (15 / 2), Finite 0))
   \<and> y0 example_initial
       = [Finite 7000, Finite 0, Finite 0, Finite 0, Finite (15 / 2), Finite 0]
   \<and> get_item (ts example_initial) 0 = Inr (Finite 0)
   \<and> get_item (ys example_initial) 0 = Inr (y0 example_initial)
   \<and> propagate_orbit (example_tools reach_all) example_initial = Inr example_final
   \<and> y0 example_final = y0 example_initial
   \<and> get_item (ts example_final) 0 = Inr (Finite 0)
   \<and> get_item (ys example_final) 0 = Inr (y0 example_initial)
   \<and> true_anomaly_r (example_tools reach_all) (y0 example_initial) = Some (Finite 7000)
   \<and> get_item (ta example_final) 0 = Inr (Finite 7000)"
proof -
  note t = sample0_initial_condition[OF init_example[of reach_all]]
  from t have a: "get_item (ts example_initial) 0 = Inr (Finite 0)
        \<and> get_item (ys example_initial) 0 = Inr (y0 example_initial)"
    by blast
  from t propagate_example
  have b: "y0 example_final = y0 example_initial
        \<and> get_item (ts example_final) 0 = Inr (Finite 0)
        \<and> get_item (ys example_final) 0 = Inr (y0 example_initial)"
    by blast
  have c: "example_body ''mu'' = Some 398600
   \<and> coes2rv (example_tools reach_all) [] True 398600
       = Some ((Finite 7000, Finite 0, Finite 0), (Finite 0, Finite (15 / 2), Finite 0))
   \<and> y0 example_initial
       = [Finite 7000, Finite 0, Finite 0, Finite 0, Finite (15 / 2), Finite 0]
   \<and> true_anomaly_r (example_tools reach_all) (y0 example_initial) = Some (Finite 7000)
   \<and> get_item (ta example_final) 0 = Inr (Finite 7000)"
    by (simp add: example_body_def example_tools_def example_coes2rv_def example_initial_def
        example_final_def example_y0_def example_true_anomaly_def get_item_def np_index_def)
  from init_example[of reach_all] propagate_example a b c show ?thesis by blast
qed







text \<open>
  C7, as the source has it. The claim was that a state with \<open>|r| = 0\<close> makes
  \<^verbatim>\<open>diffy_q\<close> fail with a guarded \<open>SingularityError\<close>. The source has no guard:
  it divides by the zero \<open>norm_r**3\<close>, NumPy returns \<open>nan\<close> for each \<open>0/0\<close>, and
  the call returns \<open>(v, (nan, nan, nan))\<close> (or raises \<^verbatim>\<open>KeyError\<close> when the central
  body has no \<open>mu\<close>). No call of \<^verbatim>\<open>diffy_q\<close> raises \<open>SingularityError\<close>. The
  same division is made whenever the computed \<open>norm_r\<close> is zero, also for a tiny
  non-zero \<open>r\<close> whose squares underflow: no component of the acceleration is finite
  then.
\<close>

theorem diffy_q_zero_radius:
  assumes "euclidean_norm [rx, ry, rz] = 0"
  shows "diffy_q body t [Finite rx, Finite ry, Finite rz, vx, vy, vz] =
           (case body ''mu'' of
              None \<Rightarrow> Inl KeyError
            | Some mu \<Rightarrow> Inr [vx, vy, vz, NaN, NaN, NaN])
         \<and> diffy_q body t y \<noteq> Inl SingularityError
         \<and> (\<forall>a b c mu. linalg_norm [a, b, c] = Finite 0 \<and> body ''mu'' = Some mu \<longrightarrow>
              (\<exists>ax ay az. diffy_q body t [a, b, c, vx, vy, vz] = Inr [vx, vy, vz, ax, ay, az]
                 \<and> (\<forall>x. ax \<noteq> Finite x) \<and> (\<forall>x. ay \<noteq> Finite x) \<and> (\<forall>x. az \<noteq> Finite x)))"
proof -
  from assms have "rx\<^sup>2 + ry\<^sup>2 + rz\<^sup>2 = 0" by (simp add: euclidean_norm_def)
  hence "rx = 0 \<and> ry = 0 \<and> rz = 0"
    by (simp add: add_nonneg_eq_0_iff)
  hence "diffy_q body t [Finite rx, Finite ry, Finite rz, vx, vy, vz] =
           (case body ''mu'' of
              None \<Rightarrow> Inl KeyError
            | Some mu \<Rightarrow> Inr [vx, vy, vz, NaN, NaN, NaN])"
    by (simp add: diffy_q_def linalg_norm_def np_dot_def numeral_3_eq_3 split: option.splits)
  moreover have "diffy_q body t y \<noteq> Inl SingularityError"
    by (auto simp: diffy_q_def Let_def split: list.splits option.splits)
  moreover have nf: "\<forall>x. np_true_divide w (Finite 0) \<noteq> Finite x" for w
    by (cases w) (simp_all add: signed_inf_def)
  have "\<exists>ax ay az. diffy_q body t [a, b, c, vx, vy, vz] = Inr [vx, vy, vz, ax, ay, az]
                 \<and> (\<forall>x. ax \<noteq> Finite x) \<and> (\<forall>x. ay \<noteq> Finite x) \<and> (\<forall>x. az \<noteq> Finite x)"
    if "linalg_norm [a, b, c] = Finite 0" "body ''mu'' = Some mu" for a b c mu
    using that nf by (simp add: diffy_q_def numeral_3_eq_3)
  ultimately show ?thesis by blast
qed

theorem diffy_q_zero_radius_witness:
  "euclidean_norm [0, 0, 0] = 0
   \<and> diffy_q example_body (Finite 0)
        [Finite 0, Finite 0, Finite 0, Finite 0, Finite (15 / 2), Finite 0] =
        Inr [Finite 0, Finite (15 / 2), Finite 0, NaN, NaN, NaN]
   \<and> diffy_q example_body (Finite 0)
        [Finite 0, Finite 0, Finite 0, Finite 0, Finite (15 / 2), Finite 0]
        \<noteq> Inl SingularityError"
proof -
  have z: "euclidean_norm [0, 0, 0] = 0" by (simp add: euclidean_norm_def)
  from diffy_q_zero_radius[OF z, of example_body "Finite 0" "Finite 0" "Finite (15 / 2)"
      "Finite 0" "[Finite 0, Finite 0, Finite 0, Finite 0, Finite (15 / 2), Finite 0]"] z
  show ?thesis by (simp add: example_body_def)
qed

theorem diffy_q_zero_radius_returns_nan:
  "diffy_q [''mu'' \<mapsto> 398600] (Finite 0)
     [Finite 0, Finite 0, Finite 0, Finite 1, Finite 2, Finite 3]
     = Inr [Finite 1, Finite 2, Finite 3, NaN, NaN, NaN]
   \<and> diffy_q [''mu'' \<mapsto> 398600] (Finite 0)
     [Finite 0, Finite 0, Finite 0, Finite 1, Finite 2, Finite 3] \<noteq> Inl SingularityError"
  by (simp add: diffy_q_def linalg_norm_def np_dot_def numeral_3_eq_3)

text \<open>
  C8, as the source has it. The claim was that a non-positive \<open>tspan\<close> or \<open>dt\<close>
  makes the constructor fail with an \<open>InvalidConfigurationError\<close>. The source never
  looks at the sign of either and has no such error. What it does, for finite \<open>tspan\<close>
  and \<open>dt\<close>, once the state has been resolved (an exception of lines 27 to 33 comes
  first):

  \<^item> \<open>dt = 0\<close>: the division of two Python numbers raises \<^verbatim>\<open>ZeroDivisionError\<close>;
    when either is a NumPy scalar the division returns \<open>nan\<close> (\<open>tspan = 0\<close>) or an
    infinity, and \<^verbatim>\<open>int\<close> raises \<^verbatim>\<open>ValueError\<close> or \<^verbatim>\<open>OverflowError\<close>;
  \<^item> \<open>tspan/dt \<le> 0\<close>: the double quotient \<open>q\<close> is \<open>-inf\<close>
    (\<^verbatim>\<open>OverflowError\<close>), or at most \<open>-1\<close> (the negative \<open>n_steps\<close> makes
    \<^verbatim>\<open>np.zeros\<close> raise \<^verbatim>\<open>ValueError\<close>), or in \<open>(-1, 0]\<close> (the arrays are empty
    and writing sample 0 raises \<^verbatim>\<open>IndexError\<close>).

  In each of these cases no instance is returned and the error is not
  \<open>InvalidConfigurationError\<close>. A negative \<open>tspan\<close> with a negative \<open>dt\<close> has a
  positive quotient and is accepted like a positive pair.
\<close>

theorem nonpositive_span_raises:
  assumes "num_val tspan_in = Finite a" and "num_val dt_in = Finite b"
  shows "(b = 0 \<or> a / b \<le> 0 \<longrightarrow>
            init T state0 tspan_in dt_in coes deg auto_orbit_prop body
              = raises_after_state T state0 coes deg body
                  (case py_truediv tspan_in dt_in of
                     Inl e \<Rightarrow> e
                   | Inr NaN \<Rightarrow> ValueError
                   | Inr (Finite q) \<Rightarrow> if q \<le> - 1 then ValueError else IndexError
                   | Inr _ \<Rightarrow> OverflowError)
            \<and> (\<forall>p. init T state0 tspan_in dt_in coes deg auto_orbit_prop body \<noteq> Inr p)
            \<and> init T state0 tspan_in dt_in coes deg auto_orbit_prop body
                \<noteq> Inl InvalidConfigurationError)
         \<and> (b = 0 \<and> \<not> is_numpy tspan_in \<and> \<not> is_numpy dt_in \<longrightarrow>
              init T state0 tspan_in dt_in coes deg auto_orbit_prop body
                = raises_after_state T state0 coes deg body ZeroDivisionError)
         \<and> (b = 0 \<and> (is_numpy tspan_in \<or> is_numpy dt_in) \<longrightarrow>
              init T state0 tspan_in dt_in coes deg auto_orbit_prop body
                = raises_after_state T state0 coes deg body
                    (if a = 0 then ValueError else OverflowError))
         \<and> (b \<noteq> 0 \<and> a / b \<le> - (2 ^ 1024) \<longrightarrow>
              init T state0 tspan_in dt_in coes deg auto_orbit_prop body
                = raises_after_state T state0 coes deg body OverflowError)
         \<and> (b \<noteq> 0 \<and> - (2 ^ 1023) < a / b \<and> a / b \<le> - 1 \<longrightarrow>
              init T state0 tspan_in dt_in coes deg auto_orbit_prop body
                = raises_after_state T state0 coes deg body ValueError)
         \<and> (b \<noteq> 0 \<and> - 1 < a / b \<and> a / b \<le> 0 \<and> is_double (a / b) \<longrightarrow>
              init T state0 tspan_in dt_in coes deg auto_orbit_prop body
                = raises_after_state T state0 coes deg body IndexError)
         \<and> (a < 0 \<and> b < 0 \<and> 1 \<le> a / b * 2 ^ 1022 \<and> a / b < 2 ^ 1023 \<longrightarrow>
              (\<exists>q. py_truediv tspan_in dt_in = Inr (Finite q) \<and> 0 < q
                 \<and> (\<forall>mu rx ry rz vx vy vz a0.
                      zeros_failure T (nat \<lceil>q\<rceil>) 6 = None \<and> zeros_failure T (nat \<lceil>q\<rceil>) 1 = None
                      \<and> body ''mu'' = Some mu
                      \<and> coes2rv T state0 deg mu = Some ((rx, ry, rz), (vx, vy, vz))
                      \<and> true_anomaly_r T [rx, ry, rz, vx, vy, vz] = Some a0 \<longrightarrow>
                      (\<exists>p. init T state0 tspan_in dt_in True deg False body = Inr p
                         \<and> n_steps p = \<lceil>q\<rceil>))))"
proof -
  let ?init = "init T state0 tspan_in dt_in coes deg auto_orbit_prop body"
  let ?raises = "raises_after_state T state0 coes deg body"
  have nz: "py_truediv tspan_in dt_in = Inr (fl (a / b))" if "b \<noteq> 0"
    using assms that by (intro py_truediv_finite)
  have z: "py_truediv tspan_in dt_in =
             (if \<not> is_numpy tspan_in \<and> \<not> is_numpy dt_in then Inl ZeroDivisionError
              else if a = 0 then Inr NaN
              else Inr (signed_inf (a < 0)))" if "b = 0"
    using assms that by (intro py_truediv_by_zero) simp_all
  have c1: "?init = ?raises ZeroDivisionError"
    if "b = 0 \<and> \<not> is_numpy tspan_in \<and> \<not> is_numpy dt_in"
    using that z by (intro init_Inl) simp
  have c2: "?init = ?raises (if a = 0 then ValueError else OverflowError)"
    if h: "b = 0 \<and> (is_numpy tspan_in \<or> is_numpy dt_in)"
  proof (cases "a = 0")
    case True
    with h z have "py_truediv tspan_in dt_in = Inr NaN" by auto
    from init_after_quotient[OF this] True show ?thesis by simp
  next
    case False
    with h z have "py_truediv tspan_in dt_in = Inr (signed_inf (a < 0))" by auto
    from init_after_quotient[OF this, of OverflowError] False show ?thesis
      by (simp add: signed_inf_def)
  qed
  have c3: "?init = ?raises OverflowError" if h: "b \<noteq> 0 \<and> a / b \<le> - (2 ^ 1024)"
  proof -
    have "(0::real) < 2 ^ 1024" by simp
    with h have neg: "a / b < 0" by linarith
    with h have "2 ^ 1024 \<le> \<bar>a / b\<bar>" by (simp only: abs_of_neg) linarith
    from fl_overflow[OF this] neg have "fl (a / b) = NegInf" by simp
    with nz h have "py_truediv tspan_in dt_in = Inr NegInf" by simp
    from init_after_quotient[OF this] show ?thesis by simp
  qed
  have c4: "?init = ?raises ValueError" if h: "b \<noteq> 0 \<and> - (2 ^ 1023) < a / b \<and> a / b \<le> - 1"
  proof -
    from h have neg: "a / b < 0" by linarith
    have "(2::real) ^ 1022 \<ge> 1" by simp
    moreover from h neg have "1 \<le> \<bar>a / b\<bar>" by (simp only: abs_of_neg) linarith
    ultimately have "1 * 1 \<le> \<bar>a / b\<bar> * 2 ^ 1022" by (intro mult_mono) simp_all
    hence n1: "1 \<le> \<bar>a / b\<bar> * 2 ^ 1022" by simp
    from h neg have "\<bar>a / b\<bar> < 2 ^ 1023" by (simp only: abs_of_neg) linarith
    from fl_finite[OF n1 this] obtain q where q: "fl (a / b) = Finite q" by blast
    from h fl_le_minus_one[OF _ q] have "q \<le> - 1" by simp
    from init_after_count(1)[OF _ this] nz h q show ?thesis by simp
  qed
  have c5: "?init = ?raises IndexError"
    if h: "b \<noteq> 0 \<and> - 1 < a / b \<and> a / b \<le> 0 \<and> is_double (a / b)"
  proof -
    from h nz have "py_truediv tspan_in dt_in = Inr (Finite (a / b))" by (simp add: is_double_def)
    from init_after_count(2)[OF this] h show ?thesis by simp
  qed
  have c6: "\<exists>q. py_truediv tspan_in dt_in = Inr (Finite q) \<and> 0 < q
                 \<and> (\<forall>mu rx ry rz vx vy vz a0.
                      zeros_failure T (nat \<lceil>q\<rceil>) 6 = None \<and> zeros_failure T (nat \<lceil>q\<rceil>) 1 = None
                      \<and> body ''mu'' = Some mu
                      \<and> coes2rv T state0 deg mu = Some ((rx, ry, rz), (vx, vy, vz))
                      \<and> true_anomaly_r T [rx, ry, rz, vx, vy, vz] = Some a0 \<longrightarrow>
                      (\<exists>p. init T state0 tspan_in dt_in True deg False body = Inr p
                         \<and> n_steps p = \<lceil>q\<rceil>))"
    if h: "a < 0 \<and> b < 0 \<and> 1 \<le> a / b * 2 ^ 1022 \<and> a / b < 2 ^ 1023"
  proof -
    from h have pos: "0 < a / b" by (simp add: zero_less_divide_iff)
    with h have "1 \<le> \<bar>a / b\<bar> * 2 ^ 1022" and "\<bar>a / b\<bar> < 2 ^ 1023"
      by (simp_all only: abs_of_pos)
    from fl_finite[OF this] pos obtain q where q: "fl (a / b) = Finite q" "0 < q" by blast
    with nz h have d: "py_truediv tspan_in dt_in = Inr (Finite q)" by simp
    with q(2) init_returns[OF d q(2)] show ?thesis by blast
  qed
  have c0: "?init = ?raises (case py_truediv tspan_in dt_in of
                     Inl e \<Rightarrow> e
                   | Inr NaN \<Rightarrow> ValueError
                   | Inr (Finite q) \<Rightarrow> if q \<le> - 1 then ValueError else IndexError
                   | Inr _ \<Rightarrow> OverflowError)
            \<and> (\<forall>p. ?init \<noteq> Inr p) \<and> ?init \<noteq> Inl InvalidConfigurationError"
    if h: "b = 0 \<or> a / b \<le> 0"
  proof -
    define err where "err = (case py_truediv tspan_in dt_in of
                     Inl e \<Rightarrow> e
                   | Inr NaN \<Rightarrow> ValueError
                   | Inr (Finite q) \<Rightarrow> if q \<le> - 1 then ValueError else IndexError
                   | Inr _ \<Rightarrow> OverflowError)"
    have e: "?init = ?raises err \<and> err \<noteq> InvalidConfigurationError"
    proof (cases "b = 0")
      case True
      show ?thesis
      proof (cases "is_numpy tspan_in \<or> is_numpy dt_in")
        case False
        with True z c1 show ?thesis by (simp add: err_def)
      next
        case n: True
        with True z c2 show ?thesis by (auto simp: err_def signed_inf_def)
      qed
    next
      case False
      with h have le: "a / b \<le> 0" by simp
      from fl_nonpositive[OF le] show ?thesis
      proof
        assume "fl (a / b) = NegInf"
        with nz False have d: "py_truediv tspan_in dt_in = Inr NegInf" by simp
        from init_after_quotient[OF d] d show ?thesis by (simp add: err_def)
      next
        assume "\<exists>q. fl (a / b) = Finite q \<and> q \<le> 0"
        then obtain q where q: "fl (a / b) = Finite q" "q \<le> 0" by blast
        with nz False have d: "py_truediv tspan_in dt_in = Inr (Finite q)" by simp
        show ?thesis
        proof (cases "q \<le> - 1")
          case True
          from init_after_count(1)[OF d True] d True show ?thesis by (simp add: err_def)
        next
          case False
          hence "- 1 < q" by simp
          from init_after_count(2)[OF d this q(2)] d False show ?thesis by (simp add: err_def)
        qed
      qed
    qed
    from raises_after_state_Inl[of T state0 coes deg body err] e
    obtain e' where "?raises err = Inl e'" "e' \<noteq> InvalidConfigurationError" by blast
    with e show ?thesis unfolding err_def by simp
  qed
  from c0 c1 c2 c3 c4 c5 c6 show ?thesis by blast
qed

theorem nonpositive_span_raises_witness:
  "init (example_tools reach_all) [] (PyFloat (Finite 30)) (PyFloat (Finite 0))
     True True True example_body = Inl ZeroDivisionError
   \<and> init (example_tools reach_all) [] (NpFloat64 (Finite 30)) (NpFloat64 (Finite 0))
     True True True example_body = Inl OverflowError
   \<and> init (example_tools reach_all) [] (NpFloat64 (Finite 0)) (NpFloat64 (Finite 0))
     True True True example_body = Inl ValueError
   \<and> init (example_tools reach_all) [] (PyFloat (Finite (- 30))) (PyFloat (Finite 10))
     True True True example_body = Inl ValueError
   \<and> init (example_tools reach_all) [] (PyFloat (Finite 0)) (PyFloat (Finite 10))
     True True True example_body = Inl IndexError"
proof -
  have r: "raises_after_state (example_tools reach_all) [] True True example_body err = Inl err"
    for err
    by (simp add: raises_after_state_def resolve_state_def getattr_def example_tools_def
        example_body_def example_coes2rv_def)
  have d: "is_double 0" by (simp add: is_double_def)
  from nonpositive_span_raises[of "PyFloat (Finite 30)" 30 "PyFloat (Finite 0)" 0
      "example_tools reach_all" "[]" True True True example_body]
  have "init (example_tools reach_all) [] (PyFloat (Finite 30)) (PyFloat (Finite 0))
     True True True example_body = Inl ZeroDivisionError"
    by (simp add: r signed_inf_def)
  moreover
  from nonpositive_span_raises[of "NpFloat64 (Finite 30)" 30 "NpFloat64 (Finite 0)" 0
      "example_tools reach_all" "[]" True True True example_body]
  have "init (example_tools reach_all) [] (NpFloat64 (Finite 30)) (NpFloat64 (Finite 0))
     True True True example_body = Inl OverflowError"
    by (simp add: r signed_inf_def)
  moreover
  from nonpositive_span_raises[of "NpFloat64 (Finite 0)" 0 "NpFloat64 (Finite 0)" 0
      "example_tools reach_all" "[]" True True True example_body]
  have "init (example_tools reach_all) [] (NpFloat64 (Finite 0)) (NpFloat64 (Finite 0))
     True True True example_body = Inl ValueError"
    by (simp add: r signed_inf_def)
  moreover
  from nonpositive_span_raises[of "PyFloat (Finite (- 30))" "- 30" "PyFloat (Finite 10)" 10
      "example_tools reach_all" "[]" True True True example_body]
  have "init (example_tools reach_all) [] (PyFloat (Finite (- 30))) (PyFloat (Finite 10))
     True True True example_body = Inl ValueError"
    by (simp add: r signed_inf_def)
  moreover
  from nonpositive_span_raises[of "PyFloat (Finite 0)" 0 "PyFloat (Finite 10)" 10
      "example_tools reach_all" "[]" True True True example_body] d
  have "init (example_tools reach_all) [] (PyFloat (Finite 0)) (PyFloat (Finite 10))
     True True True example_body = Inl IndexError"
    by (simp add: r signed_inf_def)
  ultimately show ?thesis by blast
qed

theorem negative_span_and_step_accepted:
  "observe (init (example_tools reach_all) [] (PyFloat (Finite (- 30))) (PyFloat (Finite (- 10)))
              True True False example_body)
     = Inr ([Finite 0, Finite 0, Finite 0],
            [[Finite 7000, Finite 0, Finite 0, Finite 0, Finite (15 / 2), Finite 0],
             [Finite 0, Finite 0, Finite 0, Finite 0, Finite 0, Finite 0],
             [Finite 0, Finite 0, Finite 0, Finite 0, Finite 0, Finite 0]],
            [Finite 7000, Finite 0, Finite 0],
            1, True)
   \<and> init (example_tools reach_all) [] (PyFloat (Finite (- 30))) (PyFloat (Finite (- 10)))
        True True False example_body
     \<noteq> Inl InvalidConfigurationError"
  by (simp add: example_eval)

text \<open>
  C9. The constructor initialises the solver once, with the initial state at time 0, and
  across the stepping loop the solver is never initialised again: after
  \<^verbatim>\<open>propagate_orbit\<close> the solver is what \<open>n_steps - 1\<close> advances in a row give from
  that initial solver, each starting from the state and time at which the one before it
  ended, and the time recorded at every index \<open>k \<ge> 1\<close> is the solver's time after the
  first \<open>k\<close> of them.
\<close>

theorem solver_never_reinitialised:
  assumes "init T state0 tspan_in dt_in coes deg False body = Inr p"
      and "propagate_orbit T p = Inr p'"
  shows "solver p = set_initial_value (y0 p) (Finite 0)
       \<and> advance_n T body (num_val dt_in) (nat (n_steps p - 1)) (solver p) = Inr (solver p')
       \<and> (\<forall>k. 1 \<le> k \<and> int k < n_steps p \<longrightarrow>
            (\<exists>s. advance_n T body (num_val dt_in) k (solver p) = Inr s
                \<and> get_item (ts p') (int k) = Inr (sol_t s)))"
proof -
  note f = init_False_facts[OF assms(1)]
  from propagate_orbit_Inr[OF assms(2)] obtain q where
    q: "propagate_loop T p = Inr q" and
    p': "p' = q\<lparr>rs := Some (map (take 3) (ys q)), vs := Some (map (drop 3) (ys q))\<rparr>"
    by blast
  from propagate_loop_solver[OF q] f(4,5,6) p'
  have "advance_n T body (num_val dt_in) (nat (n_steps p - 1)) (solver p) = Inr (solver p')"
    by simp
  with f(7) run_times[OF assms] show ?thesis by blast
qed

theorem solver_never_reinitialised_witness:
  "init (example_tools reach_all) [] (PyFloat (Finite 30)) (PyFloat (Finite 10)) True True False
     example_body = Inr example_initial
   \<and> propagate_orbit (example_tools reach_all) example_initial = Inr example_final
   \<and> solver example_initial = set_initial_value (y0 example_initial) (Finite 0)
   \<and> n_steps example_initial - 1 = 2
   \<and> advance_n (example_tools reach_all) example_body (Finite 10)
        (nat (n_steps example_initial - 1)) (solver example_initial)
        = Inr (solver example_final)
   \<and> sol_t (solver example_final) = Finite 20
   \<and> (1 :: nat) \<le> 1 \<and> int 1 < n_steps example_initial
   \<and> advance_n (example_tools reach_all) example_body (Finite 10) 1 (solver example_initial)
        = Inr \<lparr>sol_t = Finite 10,
               sol_y = [Finite 7001, Finite 1, Finite 1, Finite 1, Finite (17 / 2), Finite 1],
               sol_success = True\<rparr>
   \<and> get_item (ts example_final) (int 1) = Inr (Finite 10)"
proof -
  note t = solver_never_reinitialised[OF init_example[of reach_all] propagate_example,
      unfolded num_val.simps]
  from t
  have a: "solver example_initial = set_initial_value (y0 example_initial) (Finite 0)
      \<and> advance_n (example_tools reach_all) example_body (Finite 10)
          (nat (n_steps example_initial - 1)) (solver example_initial)
          = Inr (solver example_final)"
    by blast
  have n: "n_steps example_initial - 1 = 2" by (simp add: example_initial_def)
  have e: "sol_t (solver example_final) = Finite 20" by (simp add: example_final_def)
  have k: "(1 :: nat) \<le> 1 \<and> int 1 < n_steps example_initial"
    by (simp add: example_initial_def)
  have s1: "advance_n (example_tools reach_all) example_body (Finite 10) 1
              (solver example_initial)
        = Inr \<lparr>sol_t = Finite 10,
               sol_y = [Finite 7001, Finite 1, Finite 1, Finite 1, Finite (17 / 2), Finite 1],
               sol_success = True\<rparr>"
    by (simp add: example_eval example_initial_def reach_all_def)
  from t k obtain s where
    s: "advance_n (example_tools reach_all) example_body (Finite 10) 1
          (solver example_initial) = Inr s"
    and gs: "get_item (ts example_final) (int 1) = Inr (sol_t s)"
    by blast
  from s[unfolded s1]
  have se: "s = \<lparr>sol_t = Finite 10,
               sol_y = [Finite 7001, Finite 1, Finite 1, Finite 1, Finite (17 / 2), Finite 1],
               sol_success = True\<rparr>"
    by simp
  from gs have g: "get_item (ts example_final) (int 1) = Inr (Finite 10)" unfolding se by simp
  from init_example[of reach_all] propagate_example a n e k s1 g show ?thesis by blast
qed

text \<open>
  C10. Calling \<^verbatim>\<open>propagate_orbit\<close> again on the instance a completed call left
  changes nothing: the loop condition is false (for an instance the constructor built,
  because the step counter equals \<open>n_steps\<close>), so the body does not run and \<open>ts\<close>,
  \<open>ys\<close> and \<open>ta\<close> stay as they are, and the slices \<open>rs\<close> and \<open>vs\<close> are
  recomputed to the values they already have.
\<close>

theorem propagate_orbit_idempotent:
  assumes "propagate_orbit T p = Inr p'"
  shows "\<not> loop_cond p'
       \<and> (constructed p \<longrightarrow> step p' = n_steps p')
       \<and> rs p' = Some (map (take 3) (ys p'))
       \<and> vs p' = Some (map (drop 3) (ys p'))
       \<and> propagate_orbit T p' = Inr p'"
proof -
  from propagate_orbit_Inr[OF assms] obtain q where
    q: "propagate_loop T p = Inr q" and
    p': "p' = q\<lparr>rs := Some (map (take 3) (ys q)), vs := Some (map (drop 3) (ys q))\<rparr>"
    by blast
  from propagate_loop_done[OF q] p' have n: "\<not> loop_cond p'" by (simp add: loop_cond_def)
  hence "propagate_loop T p' = Inr p'" by (subst propagate_loop.simps) simp
  with p' have i: "propagate_orbit T p' = Inr p'" by (simp add: propagate_orbit_def)
  from propagate_orbit_facts(2)[OF assms] have "constructed p \<longrightarrow> step p' = n_steps p'"
    by simp
  with n i p' show ?thesis by simp
qed

theorem propagate_orbit_idempotent_witness:
  "propagate_orbit (example_tools reach_all) example_initial = Inr example_final
   \<and> constructed example_initial
   \<and> step example_final = n_steps example_final
   \<and> rs example_final = Some (map (take 3) (ys example_final))
   \<and> vs example_final = Some (map (drop 3) (ys example_final))
   \<and> propagate_orbit (example_tools reach_all) example_final = Inr example_final"
proof -
  have c: "constructed example_initial" by (simp add: constructed_def example_initial_def)
  from propagate_orbit_idempotent[OF propagate_example] c
  have "step example_final = n_steps example_final
      \<and> rs example_final = Some (map (take 3) (ys example_final))
      \<and> vs example_final = Some (map (drop 3) (ys example_final))
      \<and> propagate_orbit (example_tools reach_all) example_final = Inr example_final"
    by blast
  with propagate_example c show ?thesis by blast
qed

end
